theory Spec2Isabelle
  imports Complex_Main "HOL-Library.Word"
begin

section \<open>The Play Mode Controller of the NovelMind editor\<close>

text \<open>
  A shallow embedding of \<^verbatim>\<open>editor/src/play_mode_controller.cpp\<close> and of the declarations in
  \<^verbatim>\<open>play_mode_controller.hpp\<close>. Member functions become functions on a record of the
  controller's fields. The collaborators the controller only calls (the timeline playback
  engine, the event bus, the registered listeners) are kept as a trace of the calls made to
  them, in call order. \<^verbatim>\<open>f64\<close> values are modelled as \<^typ>\<open>real\<close> (rounding is not modelled),
  \<^verbatim>\<open>u32\<close> and \<^verbatim>\<open>u64\<close> as words, pointers as natural numbers.
\<close>

subsection \<open>Data model\<close>

datatype PlayModeState = Stopped | Starting | Playing | Paused | Stopping

record PlayModeConfig =
  startFromCurrentScene :: bool
  maximizeSceneView :: bool
  muteAudio :: bool
  showDebugOverlay :: bool
  pauseOnError :: bool
  enableBreakpoints :: bool
  timeScale :: real
  startSceneId :: string
  enabledDebugViews :: "string list"

record SceneSnapshot =
  sceneId :: string
  serializedData :: "8 word list"
  timelinePosition :: real
  selectedObjects :: "string list"
  variableStates :: "string \<rightharpoonup> string"

record Breakpoint =
  bp_id :: string
  nodeId :: string
  condition :: string
  enabled :: bool
  hitOnce :: bool
  hitCount :: "32 word"

record PlayModeStats =
  totalPlayTime :: real
  frameCount :: "32 word"
  averageFps :: real
  minFrameTime :: real
  maxFrameTime :: real
  scriptErrorCount :: "32 word"
  warningCount :: "32 word"
  visitedNodes :: "string list"
  nodeVisitCounts :: "string \<rightharpoonup> 32 word"

text \<open>Events published on the bus: the fields the controller assigns, in declaration order.\<close>

datatype bus_event =
  PlayModeStateChangedEvent PlayModeState PlayModeState
| BreakpointHitEvent string string "32 word"
| PlayModeErrorEvent string string

text \<open>The virtual callbacks of \<^verbatim>\<open>IPlayModeListener\<close>.\<close>

datatype listener_call =
  onPlayModeStateChanged PlayModeState PlayModeState
| onPlayModeStarting
| onPlayModeStarted
| onPlayModePaused
| onPlayModeResumed
| onPlayModeStopping
| onPlayModeStopped
| onBreakpointHit Breakpoint
| onScriptError string string

text \<open>The commands the controller sends to \<^verbatim>\<open>TimelinePlaybackEngine::instance()\<close>.\<close>

datatype engine_call =
  EnginePlay
| EnginePause
| EngineResume
| EngineStop
| EngineSetSpeed real
| EngineJumpToStart
| EngineSeekTo real
| EngineUpdate real

datatype effect =
  Listener nat listener_call
| Publish bus_event
| Engine engine_call

text \<open>
  All notifications are synchronous calls, so the code that is called runs while the
  controller is in the middle of its own function and can read it through the public
  getters. A \<open>view\<close> is what \<^verbatim>\<open>getState()\<close> and \<^verbatim>\<open>getBreakpoints()\<close> return during one
  outbound call.
\<close>

record view =
  seen_state :: PlayModeState
  seen_breakpoints :: "Breakpoint list"

text \<open>
  The controller's members, followed by the two parts of the outside world it touches:
  \<open>engine_time\<close> is what \<^verbatim>\<open>TimelinePlaybackEngine::getCurrentTime()\<close> returns, and
  \<open>calls\<close> is the trace of outbound calls made so far, each with the view the callee has
  of the controller while the call runs.
\<close>

record PlayModeController =
  m_state :: PlayModeState
  m_config :: PlayModeConfig
  m_defaultConfig :: PlayModeConfig
  m_stats :: PlayModeStats
  m_sceneSnapshot :: "SceneSnapshot option"
  m_breakpoints :: "Breakpoint list"
  m_nextBreakpointId :: "64 word"
  m_atBreakpoint :: bool
  m_currentBreakpointId :: string
  m_variables :: "string \<rightharpoonup> string"
  m_currentNodeId :: string
  m_currentSceneId :: string
  m_lastFrameTime :: real
  m_frameTimeAccumulator :: real
  m_frameTimeCount :: "32 word"
  m_listeners :: "nat list"
  m_app :: "nat option"
  engine_time :: real
  calls :: "(effect \<times> view) list"

definition view_of :: "PlayModeController \<Rightarrow> view" where
  "view_of s = \<lparr>seen_state = m_state s, seen_breakpoints = m_breakpoints s\<rparr>"

text \<open>The outbound calls alone, in call order.\<close>

definition effects :: "PlayModeController \<Rightarrow> effect list" where
  "effects s = map fst (calls s)"

text \<open>The member initialisers of the header: the state of a freshly constructed controller.\<close>

definition default_config :: PlayModeConfig where
  "default_config =
     \<lparr>startFromCurrentScene = True, maximizeSceneView = False, muteAudio = False,
      showDebugOverlay = True, pauseOnError = True, enableBreakpoints = True,
      timeScale = 1, startSceneId = [], enabledDebugViews = []\<rparr>"

definition default_stats :: PlayModeStats where
  "default_stats =
     \<lparr>totalPlayTime = 0, frameCount = 0, averageFps = 0, minFrameTime = 0,
      maxFrameTime = 0, scriptErrorCount = 0, warningCount = 0, visitedNodes = [],
      nodeVisitCounts = Map.empty\<rparr>"

definition default_snapshot :: SceneSnapshot where
  "default_snapshot =
     \<lparr>sceneId = [], serializedData = [], timelinePosition = 0, selectedObjects = [],
      variableStates = Map.empty\<rparr>"

definition init :: PlayModeController where
  "init =
     \<lparr>m_state = Stopped, m_config = default_config, m_defaultConfig = default_config,
      m_stats = default_stats, m_sceneSnapshot = None, m_breakpoints = [],
      m_nextBreakpointId = 1, m_atBreakpoint = False, m_currentBreakpointId = [],
      m_variables = Map.empty, m_currentNodeId = [], m_currentSceneId = [],
      m_lastFrameTime = 0, m_frameTimeAccumulator = 0, m_frameTimeCount = 0,
      m_listeners = [], m_app = None, engine_time = 0, calls = []\<rparr>"

subsection \<open>Outbound calls\<close>

text \<open>Each call is recorded with the controller as it is when the call is made.\<close>

definition emit :: "effect list \<Rightarrow> PlayModeController \<Rightarrow> PlayModeController" where
  "emit es s = s\<lparr>calls := calls s @ map (\<lambda>e. (e, view_of s)) es\<rparr>"

text \<open>\<^verbatim>\<open>for (auto* listener : m_listeners) listener->call(...)\<close>\<close>

definition notify_listeners :: "listener_call \<Rightarrow> PlayModeController \<Rightarrow> PlayModeController" where
  "notify_listeners c s = emit (map (\<lambda>l. Listener l c) (m_listeners s)) s"

definition notifyStateChanged ::
  "PlayModeState \<Rightarrow> PlayModeState \<Rightarrow> PlayModeController \<Rightarrow> PlayModeController" where
  "notifyStateChanged oldState newState s =
     notify_listeners (onPlayModeStateChanged oldState newState) s"

definition notifyBreakpointHit :: "Breakpoint \<Rightarrow> PlayModeController \<Rightarrow> PlayModeController" where
  "notifyBreakpointHit breakpoint s =
     emit [Publish (BreakpointHitEvent (bp_id breakpoint) (nodeId breakpoint) (hitCount breakpoint))]
       (notify_listeners (onBreakpointHit breakpoint) s)"

subsection \<open>State queries\<close>

definition isInPlayMode :: "PlayModeController \<Rightarrow> bool" where
  "isInPlayMode s =
     (m_state s = Playing \<or> m_state s = Paused \<or> m_state s = Starting \<or> m_state s = Stopping)"

definition getState :: "PlayModeController \<Rightarrow> PlayModeState" where
  "getState s = m_state s"

subsection \<open>Private helpers\<close>

definition resetStats :: "PlayModeController \<Rightarrow> PlayModeController" where
  "resetStats s =
     s\<lparr>m_stats := default_stats, m_lastFrameTime := 0, m_frameTimeAccumulator := 0,
       m_frameTimeCount := 0\<rparr>"

definition captureSceneSnapshot :: "PlayModeController \<Rightarrow> PlayModeController" where
  "captureSceneSnapshot s =
     s\<lparr>m_sceneSnapshot :=
         Some (default_snapshot\<lparr>sceneId := m_currentSceneId s, timelinePosition := engine_time s\<rparr>)\<rparr>"

definition restoreSceneSnapshot :: "PlayModeController \<Rightarrow> PlayModeController" where
  "restoreSceneSnapshot s =
     (case m_sceneSnapshot s of
        None \<Rightarrow> s
      | Some snap \<Rightarrow> (emit [Engine (EngineSeekTo (timelinePosition snap))] s)\<lparr>m_sceneSnapshot := None\<rparr>)"

definition enterPlayMode :: "PlayModeController \<Rightarrow> PlayModeController" where
  "enterPlayMode s =
     (let oldState = m_state s;
          s1 = s\<lparr>m_state := Starting\<rparr>;
          s2 = notifyStateChanged oldState (m_state s1) s1;
          s3 = notify_listeners onPlayModeStarting s2;
          s4 = captureSceneSnapshot s3;
          s5 = resetStats s4;
          s6 = emit [Engine (EngineSetSpeed (timeScale (m_config s5)))] s5;
          s7 = (if \<not> startFromCurrentScene (m_config s6)
                then emit [Engine EngineJumpToStart] s6 else s6);
          oldState' = m_state s7;
          s8 = s7\<lparr>m_state := Playing\<rparr>;
          s9 = emit [Engine EnginePlay] s8;
          s10 = notifyStateChanged oldState' (m_state s9) s9;
          s11 = notify_listeners onPlayModeStarted s10
      in emit [Publish (PlayModeStateChangedEvent oldState' (m_state s11))] s11)"

definition exitPlayMode :: "PlayModeController \<Rightarrow> PlayModeController" where
  "exitPlayMode s =
     (let oldState = m_state s;
          s1 = s\<lparr>m_state := Stopping\<rparr>;
          s2 = notifyStateChanged oldState (m_state s1) s1;
          s3 = notify_listeners onPlayModeStopping s2;
          s4 = emit [Engine EngineStop] s3;
          s5 = restoreSceneSnapshot s4;
          s6 = s5\<lparr>m_variables := Map.empty, m_atBreakpoint := False,
                  m_currentBreakpointId := [], m_currentNodeId := [], m_currentSceneId := []\<rparr>;
          oldState' = m_state s6;
          s7 = s6\<lparr>m_state := Stopped\<rparr>;
          s8 = notifyStateChanged oldState' (m_state s7) s7;
          s9 = notify_listeners onPlayModeStopped s8
      in emit [Publish (PlayModeStateChangedEvent oldState' (m_state s9))] s9)"

subsection \<open>Play controls\<close>

definition play_config :: "PlayModeConfig \<Rightarrow> PlayModeController \<Rightarrow> PlayModeController" where
  "play_config config s =
     (if m_state s \<noteq> Stopped then s else enterPlayMode (s\<lparr>m_config := config\<rparr>))"

definition play :: "PlayModeController \<Rightarrow> PlayModeController" where
  "play s = play_config (m_defaultConfig s) s"

definition pause :: "PlayModeController \<Rightarrow> PlayModeController" where
  "pause s =
     (if m_state s \<noteq> Playing then s
      else
        let oldState = m_state s;
            s1 = s\<lparr>m_state := Paused\<rparr>;
            s2 = emit [Engine EnginePause] s1;
            s3 = notifyStateChanged oldState (m_state s2) s2;
            s4 = notify_listeners onPlayModePaused s3
        in emit [Publish (PlayModeStateChangedEvent oldState (m_state s4))] s4)"

definition resume :: "PlayModeController \<Rightarrow> PlayModeController" where
  "resume s =
     (if m_state s \<noteq> Paused then s
      else if m_atBreakpoint s then s
      else
        let oldState = m_state s;
            s1 = s\<lparr>m_state := Playing\<rparr>;
            s2 = emit [Engine EngineResume] s1;
            s3 = notifyStateChanged oldState (m_state s2) s2;
            s4 = notify_listeners onPlayModeResumed s3
        in emit [Publish (PlayModeStateChangedEvent oldState (m_state s4))] s4)"

definition stop :: "PlayModeController \<Rightarrow> PlayModeController" where
  "stop s = (if m_state s = Stopped then s else exitPlayMode s)"

definition continueExecution :: "PlayModeController \<Rightarrow> PlayModeController" where
  "continueExecution s =
     (if \<not> m_atBreakpoint s then s
      else
        let s1 = s\<lparr>m_atBreakpoint := False, m_currentBreakpointId := []\<rparr>
        in if m_state s1 = Paused then
             let oldState = m_state s1;
                 s2 = s1\<lparr>m_state := Playing\<rparr>;
                 s3 = emit [Engine EngineResume] s2;
                 s4 = notifyStateChanged oldState (m_state s3) s3
             in notify_listeners onPlayModeResumed s4
           else s1)"

definition togglePlayPause :: "PlayModeController \<Rightarrow> PlayModeController" where
  "togglePlayPause s =
     (case m_state s of
        Stopped \<Rightarrow> play s
      | Playing \<Rightarrow> pause s
      | Paused \<Rightarrow> (if m_atBreakpoint s then continueExecution s else resume s)
      | _ \<Rightarrow> s)"

definition restart :: "PlayModeController \<Rightarrow> PlayModeController" where
  "restart s =
     (if m_state s = Stopped then play s
      else
        let s1 = emit [Engine EngineJumpToStart] s;
            s2 = resetStats s1;
            s3 = s2\<lparr>m_variables := Map.empty\<rparr>;
            s4 = s3\<lparr>m_atBreakpoint := False, m_currentBreakpointId := []\<rparr>
        in if m_state s4 = Paused then resume s4 else s4)"

subsection \<open>Configuration\<close>

definition setDefaultConfig :: "PlayModeConfig \<Rightarrow> PlayModeController \<Rightarrow> PlayModeController" where
  "setDefaultConfig config s = s\<lparr>m_defaultConfig := config\<rparr>"

definition setTimeScale :: "real \<Rightarrow> PlayModeController \<Rightarrow> PlayModeController" where
  "setTimeScale scale s =
     (let s1 = s\<lparr>m_config := (m_config s)\<lparr>timeScale := max 0 (min scale 10)\<rparr>\<rparr>
      in if isInPlayMode s1 then emit [Engine (EngineSetSpeed (timeScale (m_config s1)))] s1
         else s1)"

subsection \<open>Breakpoint registry\<close>

text \<open>What \<^verbatim>\<open>operator<<\<close> prints for an unsigned integer: its decimal digits.\<close>

definition digit_char :: "nat \<Rightarrow> char" where
  "digit_char d = ''0123456789'' ! d"

fun dec_string :: "nat \<Rightarrow> string" where
  "dec_string n =
     (if n < 10 then [digit_char n] else dec_string (n div 10) @ [digit_char (n mod 10)])"

declare dec_string.simps [simp del]

definition bp_name :: "64 word \<Rightarrow> string" where
  "bp_name k = ''bp_'' @ dec_string (unat k)"

text \<open>\<^verbatim>\<open>oss << "bp_" << m_nextBreakpointId++\<close>: the id and the state with the counter advanced.\<close>

definition generateBreakpointId :: "PlayModeController \<Rightarrow> string \<times> PlayModeController" where
  "generateBreakpointId s =
     (bp_name (m_nextBreakpointId s), s\<lparr>m_nextBreakpointId := m_nextBreakpointId s + 1\<rparr>)"

text \<open>\<^verbatim>\<open>std::find_if\<close> over the vector is \<^const>\<open>find\<close>: the first match, if any.\<close>

definition getBreakpointForNode :: "PlayModeController \<Rightarrow> string \<Rightarrow> Breakpoint option" where
  "getBreakpointForNode s node = find (\<lambda>bp. nodeId bp = node) (m_breakpoints s)"

definition getBreakpoints :: "PlayModeController \<Rightarrow> Breakpoint list" where
  "getBreakpoints s = m_breakpoints s"

text \<open>\<^verbatim>\<open>find_if\<close> followed by \<^verbatim>\<open>erase(it)\<close>: the first match is removed.\<close>

fun erase_first :: "('a \<Rightarrow> bool) \<Rightarrow> 'a list \<Rightarrow> 'a list" where
  "erase_first P [] = []"
| "erase_first P (x # xs) = (if P x then xs else x # erase_first P xs)"

text \<open>\<^verbatim>\<open>find_if\<close> followed by an assignment through the iterator.\<close>

fun modify_first :: "('a \<Rightarrow> bool) \<Rightarrow> ('a \<Rightarrow> 'a) \<Rightarrow> 'a list \<Rightarrow> 'a list" where
  "modify_first P f [] = []"
| "modify_first P f (x # xs) = (if P x then f x # xs else x # modify_first P f xs)"

definition addBreakpoint :: "string \<Rightarrow> string \<Rightarrow> PlayModeController \<Rightarrow> PlayModeController" where
  "addBreakpoint node cond s =
     (case getBreakpointForNode s node of
        Some existing \<Rightarrow> s
      | None \<Rightarrow>
          let (new_id, s1) = generateBreakpointId s;
              bp = \<lparr>bp_id = new_id, nodeId = node, condition = cond, enabled = True,
                    hitOnce = False, hitCount = 0\<rparr>
          in s1\<lparr>m_breakpoints := m_breakpoints s1 @ [bp]\<rparr>)"

definition removeBreakpoint :: "string \<Rightarrow> PlayModeController \<Rightarrow> PlayModeController" where
  "removeBreakpoint breakpointId s =
     s\<lparr>m_breakpoints := erase_first (\<lambda>bp. bp_id bp = breakpointId) (m_breakpoints s)\<rparr>"

definition toggleBreakpoint :: "string \<Rightarrow> PlayModeController \<Rightarrow> PlayModeController" where
  "toggleBreakpoint node s =
     (case getBreakpointForNode s node of
        Some existing \<Rightarrow> removeBreakpoint (bp_id existing) s
      | None \<Rightarrow> addBreakpoint node [] s)"

definition setBreakpointEnabled :: "string \<Rightarrow> bool \<Rightarrow> PlayModeController \<Rightarrow> PlayModeController" where
  "setBreakpointEnabled breakpointId en s =
     s\<lparr>m_breakpoints :=
         modify_first (\<lambda>bp. bp_id bp = breakpointId) (\<lambda>bp. bp\<lparr>enabled := en\<rparr>) (m_breakpoints s)\<rparr>"

definition clearAllBreakpoints :: "PlayModeController \<Rightarrow> PlayModeController" where
  "clearAllBreakpoints s = s\<lparr>m_breakpoints := []\<rparr>"

subsection \<open>Scene control and variables\<close>

definition jumpToScene :: "string \<Rightarrow> PlayModeController \<Rightarrow> PlayModeController" where
  "jumpToScene scene s = (if \<not> isInPlayMode s then s else s\<lparr>m_currentSceneId := scene\<rparr>)"

definition jumpToNode :: "string \<Rightarrow> PlayModeController \<Rightarrow> PlayModeController" where
  "jumpToNode node s = (if \<not> isInPlayMode s then s else s\<lparr>m_currentNodeId := node\<rparr>)"

definition setVariable :: "string \<Rightarrow> string \<Rightarrow> PlayModeController \<Rightarrow> PlayModeController" where
  "setVariable name val s = s\<lparr>m_variables := (m_variables s)(name \<mapsto> val)\<rparr>"

definition getVariable :: "PlayModeController \<Rightarrow> string \<Rightarrow> string" where
  "getVariable s name = (case m_variables s name of Some v \<Rightarrow> v | None \<Rightarrow> [])"

definition getAllVariables :: "PlayModeController \<Rightarrow> (string \<rightharpoonup> string)" where
  "getAllVariables s = m_variables s"

subsection \<open>The per-frame update\<close>

text \<open>
  The statistics are \<^verbatim>\<open>f64\<close> in the code. Here the sums, the quotient and the comparison of
  the accumulator with 1 are exact, so the values can differ from the code's where \<^verbatim>\<open>f64\<close>
  rounds (ten frames of 0.1 reach 1 here, not in \<^verbatim>\<open>f64\<close>). The properties proved below do
  not speak about the statistics.
\<close>

definition updateStats :: "real \<Rightarrow> PlayModeController \<Rightarrow> PlayModeController" where
  "updateStats deltaTime s =
     (let st = m_stats s;
          st1 = st\<lparr>totalPlayTime := totalPlayTime st + deltaTime, frameCount := frameCount st + 1\<rparr>;
          acc = m_frameTimeAccumulator s + deltaTime;
          cnt = m_frameTimeCount s + 1;
          st2 = (if frameCount st1 = 1 \<or> deltaTime < minFrameTime st1
                 then st1\<lparr>minFrameTime := deltaTime\<rparr> else st1);
          st3 = (if deltaTime > maxFrameTime st2 then st2\<lparr>maxFrameTime := deltaTime\<rparr> else st2)
      in if acc \<ge> 1
         then s\<lparr>m_stats := st3\<lparr>averageFps := real (unat cnt) / acc\<rparr>, m_lastFrameTime := deltaTime,
                m_frameTimeAccumulator := 0, m_frameTimeCount := 0\<rparr>
         else s\<lparr>m_stats := st3, m_lastFrameTime := deltaTime, m_frameTimeAccumulator := acc,
                m_frameTimeCount := cnt\<rparr>)"

text \<open>
  The registry part of a breakpoint hit: the first entry with the given id gets its hit count
  incremented and, when its \<open>hitOnce\<close> flag is set, is erased.
\<close>

fun register_hit :: "string \<Rightarrow> Breakpoint list \<Rightarrow> Breakpoint list" where
  "register_hit i [] = []"
| "register_hit i (b # bs) =
     (if bp_id b = i
      then (let b' = b\<lparr>hitCount := hitCount b + 1\<rparr> in if hitOnce b' then bs else b' # bs)
      else b # register_hit i bs)"

text \<open>The state of \<^verbatim>\<open>update\<close> at the call of \<^verbatim>\<open>pause()\<close>, once a breakpoint \<open>bp\<close> was found.\<close>

definition mark_hit :: "Breakpoint \<Rightarrow> PlayModeController \<Rightarrow> PlayModeController" where
  "mark_hit bp s =
     (let s1 = s\<lparr>m_atBreakpoint := True, m_currentBreakpointId := bp_id bp\<rparr>
      in s1\<lparr>m_breakpoints := register_hit (bp_id bp) (m_breakpoints s1)\<rparr>)"

definition update :: "real \<Rightarrow> PlayModeController \<Rightarrow> PlayModeController" where
  "update deltaTime s =
     (if m_state s \<noteq> Playing then s
      else
        let scaledDelta = deltaTime * timeScale (m_config s);
            s1 = updateStats scaledDelta s;
            s2 = emit [Engine (EngineUpdate scaledDelta)] s1
        in if enableBreakpoints (m_config s2) \<and> m_currentNodeId s2 \<noteq> []
           then (case getBreakpointForNode s2 (m_currentNodeId s2) of
                   None \<Rightarrow> s2
                 | Some bp \<Rightarrow>
                     if enabled bp then notifyBreakpointHit bp (pause (mark_hit bp s2)) else s2)
           else s2)"

subsection \<open>Stepping\<close>

definition stepNext :: "PlayModeController \<Rightarrow> PlayModeController" where
  "stepNext s = (if m_state s \<noteq> Paused then s else update (1 / 60) s)"

definition stepInto :: "PlayModeController \<Rightarrow> PlayModeController" where
  "stepInto s = (if m_state s \<noteq> Paused then s else stepNext s)"

definition stepOut :: "PlayModeController \<Rightarrow> PlayModeController" where
  "stepOut s = (if m_state s \<noteq> Paused then s else stepNext s)"

subsection \<open>Listeners, error reporting, toolbar\<close>

definition addListener :: "nat \<Rightarrow> PlayModeController \<Rightarrow> PlayModeController" where
  "addListener l s = (if l \<notin> set (m_listeners s) then s\<lparr>m_listeners := m_listeners s @ [l]\<rparr> else s)"

definition removeListener :: "nat \<Rightarrow> PlayModeController \<Rightarrow> PlayModeController" where
  "removeListener l s = s\<lparr>m_listeners := remove1 l (m_listeners s)\<rparr>"

definition notifyError :: "string \<Rightarrow> string \<Rightarrow> PlayModeController \<Rightarrow> PlayModeController" where
  "notifyError err node s =
     (let s1 = s\<lparr>m_stats := (m_stats s)\<lparr>scriptErrorCount := scriptErrorCount (m_stats s) + 1\<rparr>\<rparr>;
          s2 = notify_listeners (onScriptError err node) s1;
          s3 = emit [Publish (PlayModeErrorEvent err node)] s2
      in if pauseOnError (m_config s3) \<and> m_state s3 = Playing then pause s3 else s3)"

text \<open>
  \<^verbatim>\<open>renderToolbar\<close> acts on what \<^verbatim>\<open>widgets::ToolbarButton\<close> returns. The function is taken as a
  parameter; the one in \<^verbatim>\<open>imgui_integration.cpp\<close> draws nothing and returns false.
\<close>

definition ToolbarButton :: "string \<Rightarrow> string \<Rightarrow> bool \<Rightarrow> bool" where
  "ToolbarButton icon tooltip selected = False"

definition renderToolbar_with ::
  "(string \<Rightarrow> string \<Rightarrow> bool \<Rightarrow> bool) \<Rightarrow> PlayModeController \<Rightarrow> PlayModeController" where
  "renderToolbar_with button s =
     (let s1 = (if m_state s = Playing
                then (if button ''||'' ''Pause (Ctrl+P)'' False then pause s else s)
                else
                  let en = (m_state s = Stopped \<or> m_state s = Paused)
                  in if button ''>'' ''Play (Ctrl+P)'' False \<and> en
                     then (if m_state s = Paused then resume s else play s)
                     else s);
          s2 = (let en = isInPlayMode s1
                in if button ''[]'' ''Stop (Ctrl+Shift+P)'' False \<and> en then stop s1 else s1)
      in if m_state s2 = Paused
         then
           let s3 = (if button ''|>'' ''Step Next (F10)'' False then stepNext s2 else s2);
               s4 = (if button ''|>>'' ''Step Into (F11)'' False then stepInto s3 else s3)
           in if button ''<<|'' ''Step Out (Shift+F11)'' False then stepOut s4 else s4
         else s2)"

definition renderToolbar :: "PlayModeController \<Rightarrow> PlayModeController" where
  "renderToolbar s = renderToolbar_with ToolbarButton s"

definition renderDebugOverlay :: "PlayModeController \<Rightarrow> PlayModeController" where
  "renderDebugOverlay s = (if \<not> isInPlayMode s \<or> \<not> showDebugOverlay (m_config s) then s else s)"

subsection \<open>Lifecycle\<close>

definition initialize :: "nat option \<Rightarrow> PlayModeController \<Rightarrow> PlayModeController" where
  "initialize app s =
     (let s1 = s\<lparr>m_app := app\<rparr>;
          s2 = s1\<lparr>m_defaultConfig :=
                  (m_defaultConfig s1)\<lparr>startFromCurrentScene := True, showDebugOverlay := True,
                    pauseOnError := True, enableBreakpoints := True, timeScale := 1\<rparr>\<rparr>
      in s2\<lparr>m_config := m_defaultConfig s2\<rparr>)"

definition shutdown :: "PlayModeController \<Rightarrow> PlayModeController" where
  "shutdown s =
     (let s1 = (if isInPlayMode s then stop s else s)
      in s1\<lparr>m_listeners := [], m_breakpoints := [], m_variables := Map.empty, m_app := None\<rparr>)"

subsection \<open>Runs of the controller\<close>

text \<open>
  One constructor per state-changing member function that can be called on the controller
  (\<^verbatim>\<open>notifyError\<close>, which the header declares private, is included for the runtime that
  reports script errors), and \<open>EngineClock\<close> for the playback engine's clock moving on its
  own. A run executes a list of commands from left to right.
\<close>

datatype command =
  Initialize "nat option"
| Shutdown
| Play
| PlayWith PlayModeConfig
| Pause
| Resume
| Stop
| TogglePlayPause
| Restart
| SetDefaultConfig PlayModeConfig
| SetTimeScale real
| StepNext
| StepInto
| StepOut
| AddBreakpoint string string
| RemoveBreakpoint string
| ToggleBreakpoint string
| SetBreakpointEnabled string bool
| ClearAllBreakpoints
| ContinueExecution
| JumpToScene string
| JumpToNode string
| SetVariable string string
| Update real
| AddListener nat
| RemoveListener nat
| RenderToolbar "string \<Rightarrow> string \<Rightarrow> bool \<Rightarrow> bool"
| RenderDebugOverlay
| NotifyError string string
| EngineClock real

primrec exec :: "command \<Rightarrow> PlayModeController \<Rightarrow> PlayModeController" where
  "exec (Initialize app) s = initialize app s"
| "exec Shutdown s = shutdown s"
| "exec Play s = play s"
| "exec (PlayWith config) s = play_config config s"
| "exec Pause s = pause s"
| "exec Resume s = resume s"
| "exec Stop s = stop s"
| "exec TogglePlayPause s = togglePlayPause s"
| "exec Restart s = restart s"
| "exec (SetDefaultConfig config) s = setDefaultConfig config s"
| "exec (SetTimeScale scale) s = setTimeScale scale s"
| "exec StepNext s = stepNext s"
| "exec StepInto s = stepInto s"
| "exec StepOut s = stepOut s"
| "exec (AddBreakpoint node cond) s = addBreakpoint node cond s"
| "exec (RemoveBreakpoint i) s = removeBreakpoint i s"
| "exec (ToggleBreakpoint node) s = toggleBreakpoint node s"
| "exec (SetBreakpointEnabled i en) s = setBreakpointEnabled i en s"
| "exec ClearAllBreakpoints s = clearAllBreakpoints s"
| "exec ContinueExecution s = continueExecution s"
| "exec (JumpToScene scene) s = jumpToScene scene s"
| "exec (JumpToNode node) s = jumpToNode node s"
| "exec (SetVariable name val) s = setVariable name val s"
| "exec (Update deltaTime) s = update deltaTime s"
| "exec (AddListener l) s = addListener l s"
| "exec (RemoveListener l) s = removeListener l s"
| "exec (RenderToolbar button) s = renderToolbar_with button s"
| "exec RenderDebugOverlay s = renderDebugOverlay s"
| "exec (NotifyError err node) s = notifyError err node s"
| "exec (EngineClock t) s = s\<lparr>engine_time := t\<rparr>"

fun run :: "command list \<Rightarrow> PlayModeController \<Rightarrow> PlayModeController" where
  "run [] s = s"
| "run (c # cs) s = run cs (exec c s)"

subsection \<open>Invariants\<close>

text \<open>The breakpoint flag is set only while the controller is paused.\<close>

definition at_breakpoint_inv :: "PlayModeController \<Rightarrow> bool" where
  "at_breakpoint_inv s = (m_atBreakpoint s \<longrightarrow> m_state s = Paused)"

text \<open>
  Every id in the registry was issued by the counter: the ids are distinct and each is the
  name of a counter value from 1 up to, not including, the next one.
\<close>

definition ids_issued :: "PlayModeController \<Rightarrow> bool" where
  "ids_issued s =
     (1 \<le> unat (m_nextBreakpointId s) \<and>
      distinct (map bp_id (m_breakpoints s)) \<and>
      (\<forall>b \<in> set (m_breakpoints s).
         \<exists>k \<in> {1 ..< unat (m_nextBreakpointId s)}. bp_id b = ''bp_'' @ dec_string k))"

section \<open>Properties\<close>

subsection \<open>What each operation does to the state\<close>

lemmas out_defs = emit_def notify_listeners_def notifyStateChanged_def notifyBreakpointHit_def

lemma pause_fields [simp]:
  "m_state (pause s) = (if m_state s = Playing then Paused else m_state s)"
  "m_atBreakpoint (pause s) = m_atBreakpoint s"
  "m_breakpoints (pause s) = m_breakpoints s"
  by (simp_all add: pause_def Let_def out_defs)

lemma resume_fields [simp]:
  "m_state (resume s) = (if m_state s = Paused \<and> \<not> m_atBreakpoint s then Playing else m_state s)"
  "m_atBreakpoint (resume s) = m_atBreakpoint s"
  "m_breakpoints (resume s) = m_breakpoints s"
  by (simp_all add: resume_def Let_def out_defs)

lemma enterPlayMode_fields [simp]:
  "m_state (enterPlayMode s) = Playing"
  "m_atBreakpoint (enterPlayMode s) = m_atBreakpoint s"
  "m_breakpoints (enterPlayMode s) = m_breakpoints s"
  by (simp_all add: enterPlayMode_def Let_def out_defs captureSceneSnapshot_def resetStats_def)

lemma exitPlayMode_fields [simp]:
  "m_state (exitPlayMode s) = Stopped"
  "m_atBreakpoint (exitPlayMode s) = False"
  "m_breakpoints (exitPlayMode s) = m_breakpoints s"
  "m_variables (exitPlayMode s) = Map.empty"
  by (simp_all add: exitPlayMode_def Let_def out_defs restoreSceneSnapshot_def split: option.split)

lemma play_config_fields [simp]:
  "m_state (play_config c s) = (if m_state s = Stopped then Playing else m_state s)"
  "m_atBreakpoint (play_config c s) = m_atBreakpoint s"
  "m_breakpoints (play_config c s) = m_breakpoints s"
  by (simp_all add: play_config_def)

lemma play_fields [simp]:
  "m_state (play s) = (if m_state s = Stopped then Playing else m_state s)"
  "m_atBreakpoint (play s) = m_atBreakpoint s"
  "m_breakpoints (play s) = m_breakpoints s"
  by (simp_all add: play_def)

lemma stop_fields [simp]:
  "m_state (stop s) = Stopped"
  "m_atBreakpoint (stop s) = (m_state s = Stopped \<and> m_atBreakpoint s)"
  "m_breakpoints (stop s) = m_breakpoints s"
  by (simp_all add: stop_def)

lemma continueExecution_fields [simp]:
  "m_state (continueExecution s) = (if m_atBreakpoint s \<and> m_state s = Paused then Playing else m_state s)"
  "m_atBreakpoint (continueExecution s) = False"
  "m_breakpoints (continueExecution s) = m_breakpoints s"
  by (simp_all add: continueExecution_def Let_def out_defs)

lemma togglePlayPause_fields [simp]:
  "m_state (togglePlayPause s) =
     (case m_state s of Stopped \<Rightarrow> Playing | Playing \<Rightarrow> Paused | Paused \<Rightarrow> Playing | x \<Rightarrow> x)"
  "m_atBreakpoint (togglePlayPause s) = (m_atBreakpoint s \<and> m_state s \<noteq> Paused)"
  "m_breakpoints (togglePlayPause s) = m_breakpoints s"
  by (simp_all add: togglePlayPause_def split: PlayModeState.split)

lemma restart_fields [simp]:
  "m_state (restart s) = (if m_state s = Stopped \<or> m_state s = Paused then Playing else m_state s)"
  "m_atBreakpoint (restart s) = (m_state s = Stopped \<and> m_atBreakpoint s)"
  "m_breakpoints (restart s) = m_breakpoints s"
  by (auto simp add: restart_def Let_def out_defs resetStats_def)

lemma setTimeScale_fields [simp]:
  "m_state (setTimeScale x s) = m_state s"
  "m_atBreakpoint (setTimeScale x s) = m_atBreakpoint s"
  "m_breakpoints (setTimeScale x s) = m_breakpoints s"
  by (simp_all add: setTimeScale_def Let_def out_defs)

lemma updateStats_fields [simp]:
  "m_state (updateStats d s) = m_state s"
  "m_atBreakpoint (updateStats d s) = m_atBreakpoint s"
  "m_breakpoints (updateStats d s) = m_breakpoints s"
  "m_config (updateStats d s) = m_config s"
  "m_currentNodeId (updateStats d s) = m_currentNodeId s"
  "m_listeners (updateStats d s) = m_listeners s"
  "calls (updateStats d s) = calls s"
  "effects (updateStats d s) = effects s"
  by (simp_all add: updateStats_def Let_def effects_def)

lemma emit_fields [simp]:
  "m_state (emit es s) = m_state s"
  "m_atBreakpoint (emit es s) = m_atBreakpoint s"
  "m_breakpoints (emit es s) = m_breakpoints s"
  "m_config (emit es s) = m_config s"
  "m_currentNodeId (emit es s) = m_currentNodeId s"
  "m_listeners (emit es s) = m_listeners s"
  "calls (emit es s) = calls s @ map (\<lambda>e. (e, view_of s)) es"
  "effects (emit es s) = effects s @ es"
  by (simp_all add: emit_def effects_def comp_def)

lemma getBreakpointForNode_cong:
  "m_breakpoints s' = m_breakpoints s \<Longrightarrow> getBreakpointForNode s' n = getBreakpointForNode s n"
  by (simp add: getBreakpointForNode_def)

lemma mark_hit_fields [simp]:
  "m_state (mark_hit bp s) = m_state s"
  "m_atBreakpoint (mark_hit bp s) = True"
  "m_currentBreakpointId (mark_hit bp s) = bp_id bp"
  "m_breakpoints (mark_hit bp s) = register_hit (bp_id bp) (m_breakpoints s)"
  "m_listeners (mark_hit bp s) = m_listeners s"
  "calls (mark_hit bp s) = calls s"
  "effects (mark_hit bp s) = effects s"
  by (simp_all add: mark_hit_def Let_def effects_def)

lemma notifyBreakpointHit_fields [simp]:
  "m_state (notifyBreakpointHit bp s) = m_state s"
  "m_atBreakpoint (notifyBreakpointHit bp s) = m_atBreakpoint s"
  "m_breakpoints (notifyBreakpointHit bp s) = m_breakpoints s"
  "m_currentBreakpointId (notifyBreakpointHit bp s) = m_currentBreakpointId s"
  by (simp_all add: out_defs)

lemma update_at_breakpoint_inv: "at_breakpoint_inv s \<Longrightarrow> at_breakpoint_inv (update d s)"
  by (auto simp: at_breakpoint_inv_def update_def Let_def getBreakpointForNode_def split: option.splits)

lemma stepNext_noop: "stepNext s = s"
  by (simp add: stepNext_def update_def)

lemma stepInto_noop: "stepInto s = s"
  by (simp add: stepInto_def stepNext_noop)

lemma stepOut_noop: "stepOut s = s"
  by (simp add: stepOut_def stepNext_noop)

lemma addBreakpoint_fields [simp]:
  "m_state (addBreakpoint n c s) = m_state s"
  "m_atBreakpoint (addBreakpoint n c s) = m_atBreakpoint s"
  "m_variables (addBreakpoint n c s) = m_variables s"
  by (simp_all add: addBreakpoint_def generateBreakpointId_def Let_def split: option.split)

lemma removeBreakpoint_fields [simp]:
  "m_state (removeBreakpoint i s) = m_state s"
  "m_atBreakpoint (removeBreakpoint i s) = m_atBreakpoint s"
  "m_variables (removeBreakpoint i s) = m_variables s"
  by (simp_all add: removeBreakpoint_def)

lemma toggleBreakpoint_fields [simp]:
  "m_state (toggleBreakpoint n s) = m_state s"
  "m_atBreakpoint (toggleBreakpoint n s) = m_atBreakpoint s"
  by (simp_all add: toggleBreakpoint_def split: option.split)

lemma notifyError_fields [simp]:
  "m_state (notifyError e n s) =
     (if pauseOnError (m_config s) \<and> m_state s = Playing then Paused else m_state s)"
  "m_atBreakpoint (notifyError e n s) = m_atBreakpoint s"
  "m_breakpoints (notifyError e n s) = m_breakpoints s"
  by (simp_all add: notifyError_def Let_def out_defs)

lemma renderToolbar_with_breakpoints [simp]:
  "m_breakpoints (renderToolbar_with b s) = m_breakpoints s"
  by (simp add: renderToolbar_with_def Let_def stepNext_noop stepInto_noop stepOut_noop)

lemma renderToolbar_with_at_breakpoint_inv:
  "at_breakpoint_inv s \<Longrightarrow> at_breakpoint_inv (renderToolbar_with b s)"
  by (auto simp: at_breakpoint_inv_def renderToolbar_with_def Let_def stepNext_noop stepInto_noop
      stepOut_noop isInPlayMode_def split: if_splits)

lemma shutdown_fields [simp]:
  "m_state (shutdown s) = Stopped"
  "m_atBreakpoint (shutdown s) = (m_state s = Stopped \<and> m_atBreakpoint s)"
  "m_breakpoints (shutdown s) = []"
  "m_variables (shutdown s) = Map.empty"
  by (auto simp add: shutdown_def Let_def isInPlayMode_def intro: PlayModeState.exhaust)

lemma initialize_fields [simp]:
  "m_state (initialize a s) = m_state s"
  "m_atBreakpoint (initialize a s) = m_atBreakpoint s"
  "m_breakpoints (initialize a s) = m_breakpoints s"
  by (simp_all add: initialize_def Let_def)

lemma exec_at_breakpoint_inv: "at_breakpoint_inv s \<Longrightarrow> at_breakpoint_inv (exec c s)"
proof (cases c)
  case (Update d)
  assume "at_breakpoint_inv s"
  then show ?thesis using Update by (simp add: update_at_breakpoint_inv)
next
  case (RenderToolbar b)
  assume "at_breakpoint_inv s"
  then show ?thesis using RenderToolbar by (simp add: renderToolbar_with_at_breakpoint_inv)
qed (auto simp: at_breakpoint_inv_def stepNext_noop stepInto_noop stepOut_noop
      setDefaultConfig_def setBreakpointEnabled_def clearAllBreakpoints_def jumpToScene_def
      jumpToNode_def setVariable_def addListener_def removeListener_def renderDebugOverlay_def
      split: PlayModeState.splits if_splits)

lemma run_at_breakpoint_inv: "at_breakpoint_inv s \<Longrightarrow> at_breakpoint_inv (run cs s)"
  by (induction cs arbitrary: s) (simp_all add: exec_at_breakpoint_inv)

subsection \<open>The registry as a list\<close>

lemma find_None_nodeId: "find (\<lambda>b. nodeId b = n) bs = None \<longleftrightarrow> n \<notin> nodeId ` set bs"
  by (induction bs) auto

lemma find_Some_mem: "find P bs = Some b \<Longrightarrow> b \<in> set bs \<and> P b"
  by (induction bs) (auto split: if_splits)

lemma erase_first_subset: "set (erase_first P bs) \<subseteq> set bs"
  by (induction bs) auto

lemma erase_first_distinct_map: "distinct (map f bs) \<Longrightarrow> distinct (map f (erase_first P bs))"
proof (induction bs)
  case Nil
  then show ?case by simp
next
  case (Cons b bs)
  have "f ` set (erase_first P bs) \<subseteq> f ` set bs"
    using erase_first_subset by (rule image_mono)
  with Cons show ?case by auto
qed

lemma modify_first_map: "(\<And>b. f (g b) = f b) \<Longrightarrow> map f (modify_first P g bs) = map f bs"
  by (induction bs) auto

lemma register_hit_subset_map:
  "nodeId ` set (register_hit i bs) \<subseteq> nodeId ` set bs"
  by (induction bs) (auto simp: Let_def)

lemma register_hit_distinct_nodes:
  "distinct (map nodeId bs) \<Longrightarrow> distinct (map nodeId (register_hit i bs))"
proof (induction bs)
  case Nil
  then show ?case by simp
next
  case (Cons b bs)
  then show ?case using register_hit_subset_map [of i bs] by (auto simp: Let_def)
qed

lemma update_distinct_nodes:
  "distinct (map nodeId (m_breakpoints s)) \<Longrightarrow>
   distinct (map nodeId (m_breakpoints (update d s)))"
  by (auto simp: update_def Let_def register_hit_distinct_nodes split: option.splits)

lemma addBreakpoint_breakpoints:
  "m_breakpoints (addBreakpoint n c s) =
     (if n \<in> nodeId ` set (m_breakpoints s) then m_breakpoints s
      else m_breakpoints s @
        [\<lparr>bp_id = bp_name (m_nextBreakpointId s), nodeId = n, condition = c, enabled = True,
          hitOnce = False, hitCount = 0\<rparr>])"
  using find_None_nodeId [of n "m_breakpoints s"]
  by (auto simp add: addBreakpoint_def getBreakpointForNode_def generateBreakpointId_def
      split: option.split)

lemma addBreakpoint_distinct_nodes:
  "distinct (map nodeId (m_breakpoints s)) \<Longrightarrow>
   distinct (map nodeId (m_breakpoints (addBreakpoint n c s)))"
  by (simp add: addBreakpoint_breakpoints)

lemma removeBreakpoint_distinct_nodes:
  "distinct (map nodeId (m_breakpoints s)) \<Longrightarrow>
   distinct (map nodeId (m_breakpoints (removeBreakpoint i s)))"
  by (simp add: removeBreakpoint_def erase_first_distinct_map)

lemma exec_distinct_nodes:
  assumes "distinct (map nodeId (m_breakpoints s))"
  shows "distinct (map nodeId (m_breakpoints (exec c s)))"
proof (cases c)
  case (Update d)
  then show ?thesis
    using assms by (simp add: update_distinct_nodes)
next
  case (AddBreakpoint n cnd)
  then show ?thesis using assms by (simp add: addBreakpoint_distinct_nodes)
next
  case (RemoveBreakpoint i)
  then show ?thesis using assms by (simp add: removeBreakpoint_distinct_nodes)
next
  case (ToggleBreakpoint n)
  then show ?thesis
    using assms
    by (simp add: toggleBreakpoint_def addBreakpoint_distinct_nodes
        removeBreakpoint_distinct_nodes split: option.split)
next
  case (SetBreakpointEnabled i en)
  then show ?thesis
    using assms by (simp add: setBreakpointEnabled_def modify_first_map)
qed (use assms in \<open>simp_all add: stepNext_noop stepInto_noop stepOut_noop
      setDefaultConfig_def clearAllBreakpoints_def jumpToScene_def
      jumpToNode_def setVariable_def addListener_def removeListener_def renderDebugOverlay_def\<close>)

lemma run_distinct_nodes:
  "distinct (map nodeId (m_breakpoints s)) \<Longrightarrow> distinct (map nodeId (m_breakpoints (run cs s)))"
  by (induction cs arbitrary: s) (simp_all add: exec_distinct_nodes)

lemma init_fields [simp]:
  "m_state init = Stopped"
  "m_atBreakpoint init = False"
  "m_breakpoints init = []"
  "m_variables init = Map.empty"
  "m_nextBreakpointId init = 1"
  "m_listeners init = []"
  "calls init = []"
  "effects init = []"
  "m_defaultConfig init = default_config"
  by (simp_all add: init_def effects_def)

lemma dec_string_digit: "n < 10 \<Longrightarrow> dec_string n = [digit_char n]"
  by (simp add: dec_string.simps [of n])

lemma bp_name_1: "bp_name 1 = ''bp_1''"
  by (simp add: bp_name_def dec_string_digit digit_char_def)

lemma bp_name_2: "bp_name 2 = ''bp_2''"
  by (simp add: bp_name_def dec_string_digit digit_char_def)

lemma filter_distinct_map_one:
  "distinct (map f xs) \<Longrightarrow> x \<in> f ` set xs \<Longrightarrow> length (filter (\<lambda>b. f b = x) xs) = 1"
proof (induction xs)
  case Nil
  then show ?case by simp
next
  case (Cons a xs)
  show ?case
  proof (cases "f a = x")
    case True
    from Cons.prems(1) have "f a \<notin> f ` set xs" by simp
    with True have "\<forall>b\<in>set xs. f b \<noteq> x" by blast
    then have "filter (\<lambda>b. f b = x) xs = []" by (simp add: filter_empty_conv)
    with True show ?thesis by simp
  next
    case False
    with Cons show ?thesis by auto
  qed
qed

lemma addBreakpoint_present: "n \<in> nodeId ` set (m_breakpoints (addBreakpoint n c s))"
  by (simp add: addBreakpoint_breakpoints)

lemma addBreakpoint_rejected:
  "n \<in> nodeId ` set (m_breakpoints s) \<Longrightarrow> addBreakpoint n c s = s"
  using find_None_nodeId [of n "m_breakpoints s"]
  by (auto simp: addBreakpoint_def getBreakpointForNode_def split: option.split)

lemma jumpToNode_fields [simp]:
  "m_state (jumpToNode n s) = m_state s"
  "m_atBreakpoint (jumpToNode n s) = m_atBreakpoint s"
  "m_breakpoints (jumpToNode n s) = m_breakpoints s"
  "m_currentNodeId (jumpToNode n s) = (if isInPlayMode s then n else m_currentNodeId s)"
  by (simp_all add: jumpToNode_def)

lemmas ctl_defs = init_def effects_def view_of_def default_config_def default_stats_def default_snapshot_def
  out_defs isInPlayMode_def resetStats_def captureSceneSnapshot_def restoreSceneSnapshot_def
  enterPlayMode_def exitPlayMode_def play_config_def play_def pause_def resume_def stop_def
  continueExecution_def togglePlayPause_def restart_def setDefaultConfig_def setTimeScale_def
  generateBreakpointId_def getBreakpointForNode_def addBreakpoint_def removeBreakpoint_def
  toggleBreakpoint_def setBreakpointEnabled_def clearAllBreakpoints_def jumpToScene_def
  jumpToNode_def setVariable_def updateStats_def mark_hit_def update_def addListener_def
  removeListener_def notifyError_def initialize_def shutdown_def Let_def bp_name_1 bp_name_2

subsection \<open>Breakpoint ids issued by the counter\<close>

lemma digit_char_inj: "a < 10 \<Longrightarrow> b < 10 \<Longrightarrow> digit_char a = digit_char b \<Longrightarrow> a = b"
proof -
  assume "a < 10" and "b < 10" and "digit_char a = digit_char b"
  moreover have "distinct ''0123456789''" by simp
  ultimately show "a = b"
    by (simp add: digit_char_def nth_eq_iff_index_eq)
qed

lemma dec_string_nonempty: "dec_string n \<noteq> []"
  by (simp add: dec_string.simps [of n])

lemma dec_string_last: "last (dec_string n) = digit_char (n mod 10)"
  by (simp add: dec_string.simps [of n])

lemma dec_string_butlast:
  "butlast (dec_string n) = (if n < 10 then [] else dec_string (n div 10))"
  by (simp add: dec_string.simps [of n])

lemma dec_string_inj: "dec_string m = dec_string n \<Longrightarrow> m = n"
proof (induction m arbitrary: n rule: less_induct)
  case (less m)
  from less.prems have "last (dec_string m) = last (dec_string n)" by simp
  then have "digit_char (m mod 10) = digit_char (n mod 10)"
    by (simp add: dec_string_last)
  then have low: "m mod 10 = n mod 10"
    by (intro digit_char_inj) simp_all
  from less.prems have bl: "butlast (dec_string m) = butlast (dec_string n)" by simp
  show ?case
  proof (cases "m < 10")
    case True
    with bl have "n < 10"
      using dec_string_nonempty [of "n div 10"] by (auto simp: dec_string_butlast split: if_splits)
    with True low show ?thesis by simp
  next
    case False
    with bl have big: "\<not> n < 10"
      using dec_string_nonempty [of "m div 10"] by (auto simp: dec_string_butlast split: if_splits)
    with False bl have "dec_string (m div 10) = dec_string (n div 10)"
      by (simp add: dec_string_butlast)
    moreover from False have "m div 10 < m" by simp
    ultimately have "m div 10 = n div 10" by (rule less.IH [rotated])
    with low show ?thesis
      by (metis div_mult_mod_eq)
  qed
qed

lemma bp_name_inj: "bp_name a = bp_name b \<Longrightarrow> a = b"
  using dec_string_inj [of "unat a" "unat b"] by (simp add: bp_name_def word_unat_eq_iff)

lemma next_id_helpers [simp]:
  "m_nextBreakpointId (emit es s) = m_nextBreakpointId s"
  "m_nextBreakpointId (notify_listeners c s) = m_nextBreakpointId s"
  "m_nextBreakpointId (notifyStateChanged a b s) = m_nextBreakpointId s"
  "m_nextBreakpointId (notifyBreakpointHit bp s) = m_nextBreakpointId s"
  "m_nextBreakpointId (resetStats s) = m_nextBreakpointId s"
  "m_nextBreakpointId (captureSceneSnapshot s) = m_nextBreakpointId s"
  "m_nextBreakpointId (restoreSceneSnapshot s) = m_nextBreakpointId s"
  "m_nextBreakpointId (updateStats d s) = m_nextBreakpointId s"
  "m_nextBreakpointId (mark_hit bp s) = m_nextBreakpointId s"
  by (simp_all add: out_defs resetStats_def captureSceneSnapshot_def restoreSceneSnapshot_def
      updateStats_def mark_hit_def Let_def split: option.split)

lemma next_id_enter_exit [simp]:
  "m_nextBreakpointId (enterPlayMode s) = m_nextBreakpointId s"
  "m_nextBreakpointId (exitPlayMode s) = m_nextBreakpointId s"
  by (simp_all add: enterPlayMode_def exitPlayMode_def Let_def)

lemma next_id_unchanged [simp]:
  "m_nextBreakpointId (initialize a s) = m_nextBreakpointId s"
  "m_nextBreakpointId (play_config cfg s) = m_nextBreakpointId s"
  "m_nextBreakpointId (play s) = m_nextBreakpointId s"
  "m_nextBreakpointId (pause s) = m_nextBreakpointId s"
  "m_nextBreakpointId (resume s) = m_nextBreakpointId s"
  "m_nextBreakpointId (stop s) = m_nextBreakpointId s"
  "m_nextBreakpointId (continueExecution s) = m_nextBreakpointId s"
  "m_nextBreakpointId (setTimeScale x s) = m_nextBreakpointId s"
  "m_nextBreakpointId (removeBreakpoint i s) = m_nextBreakpointId s"
  by (simp_all add: initialize_def play_config_def play_def pause_def resume_def stop_def
      continueExecution_def setTimeScale_def removeBreakpoint_def Let_def)

lemma next_id_unchanged_more [simp]:
  "m_nextBreakpointId (notifyError e n s) = m_nextBreakpointId s"
  "m_nextBreakpointId (togglePlayPause s) = m_nextBreakpointId s"
  "m_nextBreakpointId (restart s) = m_nextBreakpointId s"
  "m_nextBreakpointId (shutdown s) = m_nextBreakpointId s"
  by (simp_all add: notifyError_def togglePlayPause_def restart_def shutdown_def Let_def
      split: PlayModeState.split)

lemma next_id_update [simp]: "m_nextBreakpointId (update d s) = m_nextBreakpointId s"
  by (simp add: update_def Let_def split: option.split)

lemma next_id_renderToolbar [simp]:
  "m_nextBreakpointId (renderToolbar_with b s) = m_nextBreakpointId s"
  by (simp add: renderToolbar_with_def stepNext_noop stepInto_noop stepOut_noop Let_def)

lemma addBreakpoint_next_id:
  "m_nextBreakpointId (addBreakpoint n c s) =
     (if n \<in> nodeId ` set (m_breakpoints s) then m_nextBreakpointId s
      else m_nextBreakpointId s + 1)"
  using find_None_nodeId [of n "m_breakpoints s"]
  by (auto simp add: addBreakpoint_def getBreakpointForNode_def generateBreakpointId_def
      split: option.split)

lemma register_hit_ids_subset: "bp_id ` set (register_hit i bs) \<subseteq> bp_id ` set bs"
  by (induction bs) (auto simp: Let_def)

lemma register_hit_keeps_distinct_ids:
  "distinct (map bp_id bs) \<Longrightarrow> distinct (map bp_id (register_hit i bs))"
proof (induction bs)
  case Nil
  then show ?case by simp
next
  case (Cons b bs)
  then show ?case using register_hit_ids_subset [of i bs] by (auto simp: Let_def)
qed

lemma update_registry_shape:
  "m_breakpoints (update d s) = m_breakpoints s \<or>
   m_breakpoints (update d s) \<in> range (\<lambda>i. register_hit i (m_breakpoints s))"
  by (simp add: update_def Let_def split: option.split)

lemma ids_issued_names:
  "ids_issued s \<Longrightarrow> b \<in> set (m_breakpoints s) \<Longrightarrow>
   \<exists>k. 1 \<le> k \<and> k < unat (m_nextBreakpointId s) \<and> bp_id b = ''bp_'' @ dec_string k"
  by (simp add: ids_issued_def Bex_def)

lemma ids_issuedI:
  assumes "1 \<le> unat (m_nextBreakpointId s)"
    and "distinct (map bp_id (m_breakpoints s))"
    and "\<And>b. b \<in> set (m_breakpoints s) \<Longrightarrow>
           \<exists>k. 1 \<le> k \<and> k < unat (m_nextBreakpointId s) \<and> bp_id b = ''bp_'' @ dec_string k"
  shows "ids_issued s"
  using assms by (simp add: ids_issued_def Bex_def)

lemma ids_issued_shrink:
  assumes "ids_issued s"
    and "m_nextBreakpointId s' = m_nextBreakpointId s"
    and "distinct (map bp_id (m_breakpoints s'))"
    and "bp_id ` set (m_breakpoints s') \<subseteq> bp_id ` set (m_breakpoints s)"
  shows "ids_issued s'"
proof (rule ids_issuedI)
  show "1 \<le> unat (m_nextBreakpointId s')"
    using assms(1,2) by (simp add: ids_issued_def)
  show "distinct (map bp_id (m_breakpoints s'))" by fact
next
  fix b assume "b \<in> set (m_breakpoints s')"
  with assms(4) obtain b' where b': "b' \<in> set (m_breakpoints s)" and eq: "bp_id b' = bp_id b"
    by auto
  from ids_issued_names [OF assms(1) b']
  show "\<exists>k. 1 \<le> k \<and> k < unat (m_nextBreakpointId s') \<and> bp_id b = ''bp_'' @ dec_string k"
    by (simp add: eq assms(2))
qed

lemma ids_issued_fresh:
  assumes "ids_issued s"
  shows "bp_name (m_nextBreakpointId s) \<notin> bp_id ` set (m_breakpoints s)"
proof
  assume "bp_name (m_nextBreakpointId s) \<in> bp_id ` set (m_breakpoints s)"
  then obtain b where b: "b \<in> set (m_breakpoints s)"
    and eq: "bp_id b = bp_name (m_nextBreakpointId s)"
    by auto
  from ids_issued_names [OF assms b] obtain k where k: "k < unat (m_nextBreakpointId s)"
    and "bp_id b = ''bp_'' @ dec_string k"
    by blast
  with eq have "dec_string k = dec_string (unat (m_nextBreakpointId s))"
    by (simp add: bp_name_def)
  then have "k = unat (m_nextBreakpointId s)"
    by (rule dec_string_inj)
  with k show False by simp
qed

lemma unat_counter_next:
  fixes w :: "64 word"
  assumes "unat w < 2 ^ 64 - 1"
  shows "unat (w + 1) = unat w + 1"
proof -
  have "unat w + unat (1 :: 64 word) < 2 ^ LENGTH(64)"
    using assms by simp
  then have "unat (w + 1) = unat w + unat (1 :: 64 word)"
    by (rule unat_add_lem [THEN iffD1])
  then show ?thesis by simp
qed

lemma ids_issued_add:
  assumes "ids_issued s" and "unat (m_nextBreakpointId s) < 2 ^ 64 - 1"
    and "n \<notin> nodeId ` set (m_breakpoints s)"
  shows "ids_issued (addBreakpoint n c s)"
proof (rule ids_issuedI)
  let ?N = "unat (m_nextBreakpointId s)"
  let ?new = "\<lparr>bp_id = bp_name (m_nextBreakpointId s), nodeId = n, condition = c, enabled = True,
          hitOnce = False, hitCount = 0 :: 32 word\<rparr>"
  have next': "unat (m_nextBreakpointId (addBreakpoint n c s)) = ?N + 1"
    using assms(2,3) by (simp add: addBreakpoint_next_id unat_counter_next)
  have reg: "m_breakpoints (addBreakpoint n c s) = m_breakpoints s @ [?new]"
    using assms(3) by (simp add: addBreakpoint_breakpoints)
  have N: "1 \<le> ?N" using assms(1) by (simp add: ids_issued_def)
  show "1 \<le> unat (m_nextBreakpointId (addBreakpoint n c s))"
    by (simp add: next')
  have "distinct (map bp_id (m_breakpoints s))"
    using assms(1) by (simp add: ids_issued_def)
  moreover have "bp_name (m_nextBreakpointId s) \<notin> bp_id ` set (m_breakpoints s)"
    using assms(1) by (rule ids_issued_fresh)
  ultimately show "distinct (map bp_id (m_breakpoints (addBreakpoint n c s)))"
    by (simp add: reg)
  fix b assume "b \<in> set (m_breakpoints (addBreakpoint n c s))"
  then consider "b \<in> set (m_breakpoints s)" | "b = ?new"
    by (auto simp: reg)
  then show "\<exists>k. 1 \<le> k \<and> k < unat (m_nextBreakpointId (addBreakpoint n c s)) \<and>
               bp_id b = ''bp_'' @ dec_string k"
  proof cases
    case 1
    from ids_issued_names [OF assms(1) 1] obtain k where "1 \<le> k" and "k < ?N"
      and "bp_id b = ''bp_'' @ dec_string k"
      by blast
    then have "1 \<le> k \<and> k < ?N + 1 \<and> bp_id b = ''bp_'' @ dec_string k" by simp
    then show ?thesis unfolding next' by (rule exI)
  next
    case 2
    then have "1 \<le> ?N \<and> ?N < ?N + 1 \<and> bp_id b = ''bp_'' @ dec_string ?N"
      using N by (simp add: bp_name_def)
    then show ?thesis unfolding next' by (rule exI)
  qed
qed

lemma exec_ids_issued:
  assumes "ids_issued s" and "unat (m_nextBreakpointId s) < 2 ^ 64 - 1"
  shows "ids_issued (exec c s) \<and>
         unat (m_nextBreakpointId (exec c s)) \<le> unat (m_nextBreakpointId s) + 1"
proof -
  have d: "distinct (map bp_id (m_breakpoints s))"
    using assms(1) by (simp add: ids_issued_def)
  have add: "ids_issued (addBreakpoint n cnd s) \<and>
         unat (m_nextBreakpointId (addBreakpoint n cnd s)) \<le> unat (m_nextBreakpointId s) + 1"
    for n cnd
  proof (cases "n \<in> nodeId ` set (m_breakpoints s)")
    case True
    then show ?thesis using assms(1) by (simp add: addBreakpoint_rejected)
  next
    case False
    have "unat (m_nextBreakpointId s + 1) \<le> unat (m_nextBreakpointId s) + 1"
      using assms(2) by (simp add: unat_counter_next)
    with False show ?thesis
      using ids_issued_add [OF assms False, of cnd] by (simp add: addBreakpoint_next_id)
  qed
  have rem: "ids_issued (removeBreakpoint i s)" for i
    using assms(1)
  proof (rule ids_issued_shrink)
    show "distinct (map bp_id (m_breakpoints (removeBreakpoint i s)))"
      using d by (simp add: removeBreakpoint_def erase_first_distinct_map)
    show "bp_id ` set (m_breakpoints (removeBreakpoint i s)) \<subseteq> bp_id ` set (m_breakpoints s)"
      using erase_first_subset [of "\<lambda>bp. bp_id bp = i" "m_breakpoints s"]
      by (auto simp: removeBreakpoint_def)
  qed simp
  show ?thesis
  proof (cases c)
    case (AddBreakpoint n cnd)
    then show ?thesis using add by simp
  next
    case (ToggleBreakpoint n)
    then show ?thesis
      using add rem by (simp add: toggleBreakpoint_def split: option.split)
  next
    case (RemoveBreakpoint i)
    then show ?thesis using rem by simp
  next
    case (SetBreakpointEnabled i en)
    have m: "map bp_id (m_breakpoints (setBreakpointEnabled i en s)) = map bp_id (m_breakpoints s)"
      by (simp add: setBreakpointEnabled_def modify_first_map)
    then have "set (map bp_id (m_breakpoints (setBreakpointEnabled i en s))) =
               set (map bp_id (m_breakpoints s))"
      by (rule arg_cong)
    then have sub: "bp_id ` set (m_breakpoints (setBreakpointEnabled i en s)) \<subseteq>
               bp_id ` set (m_breakpoints s)"
      by (simp only: set_map subset_refl)
    have "m_nextBreakpointId (setBreakpointEnabled i en s) = m_nextBreakpointId s"
      by (simp add: setBreakpointEnabled_def)
    moreover have "distinct (map bp_id (m_breakpoints (setBreakpointEnabled i en s)))"
      using d by (simp only: m)
    ultimately have "ids_issued (setBreakpointEnabled i en s)"
      using sub by (intro ids_issued_shrink [OF assms(1)])
    then show ?thesis using SetBreakpointEnabled by (simp add: setBreakpointEnabled_def)
  next
    case (Update dt)
    have "ids_issued (update dt s)"
      using assms(1)
    proof (rule ids_issued_shrink)
      show "distinct (map bp_id (m_breakpoints (update dt s)))"
        using update_registry_shape [of dt s] d by (auto simp: register_hit_keeps_distinct_ids)
      from update_registry_shape [of dt s]
      show "bp_id ` set (m_breakpoints (update dt s)) \<subseteq> bp_id ` set (m_breakpoints s)"
      proof
        assume "m_breakpoints (update dt s) = m_breakpoints s"
        then show ?thesis by simp
      next
        assume "m_breakpoints (update dt s) \<in> range (\<lambda>i. register_hit i (m_breakpoints s))"
        then obtain i where "m_breakpoints (update dt s) = register_hit i (m_breakpoints s)"
          by auto
        then show ?thesis by (simp add: register_hit_ids_subset)
      qed
    qed simp
    then show ?thesis using Update by simp
  qed (use assms(1) in \<open>simp_all add: ids_issued_def stepNext_noop stepInto_noop stepOut_noop
        setDefaultConfig_def clearAllBreakpoints_def jumpToScene_def jumpToNode_def
        setVariable_def addListener_def removeListener_def renderDebugOverlay_def
        del: One_nat_def\<close>)
qed


lemma run_ids_issued:
  "ids_issued s \<Longrightarrow> unat (m_nextBreakpointId s) + length cs < 2 ^ 64 \<Longrightarrow>
   ids_issued (run cs s) \<and>
   unat (m_nextBreakpointId (run cs s)) \<le> unat (m_nextBreakpointId s) + length cs"
proof (induction cs arbitrary: s)
  case Nil
  then show ?case by simp
next
  case (Cons c cs)
  from Cons.prems have small: "unat (m_nextBreakpointId s) < 2 ^ 64 - 1" by simp
  with Cons.prems(1) have step: "ids_issued (exec c s)"
    and bound: "unat (m_nextBreakpointId (exec c s)) \<le> unat (m_nextBreakpointId s) + 1"
    using exec_ids_issued [of s c] by simp_all
  from bound Cons.prems(2) have "unat (m_nextBreakpointId (exec c s)) + length cs < 2 ^ 64"
    by simp
  with step have "ids_issued (run cs (exec c s)) \<and>
      unat (m_nextBreakpointId (run cs (exec c s))) \<le> unat (m_nextBreakpointId (exec c s)) + length cs"
    by (rule Cons.IH)
  with bound show ?case by simp
qed

lemma init_ids_issued: "ids_issued init"
  by (simp add: ids_issued_def)

text \<open>
  The registry conditions the breakpoint theorems ask for hold after every run of fewer than
  \<open>2 ^ 64 - 1\<close> commands: until the 64-bit id counter can wrap around, ids are distinct and
  the id to be issued next is not in the registry.
\<close>

lemma run_registry_well_formed:
  assumes "length cs < 2 ^ 64 - 1"
  shows "distinct (map nodeId (m_breakpoints (run cs init))) \<and>
         distinct (map bp_id (m_breakpoints (run cs init))) \<and>
         bp_name (m_nextBreakpointId (run cs init)) \<notin> bp_id ` set (m_breakpoints (run cs init))"
proof -
  have "unat (m_nextBreakpointId init) + length cs < 2 ^ 64"
    using assms by simp
  with init_ids_issued have i: "ids_issued (run cs init)"
    using run_ids_issued [of init cs] by simp
  then have "distinct (map bp_id (m_breakpoints (run cs init)))"
    by (simp add: ids_issued_def)
  moreover have "distinct (map nodeId (m_breakpoints (run cs init)))"
    by (rule run_distinct_nodes) simp
  ultimately show ?thesis
    using ids_issued_fresh [OF i] by simp
qed

subsection \<open>Commands that do not apply\<close>

text \<open>
  C7. A play-control command invoked in a state where it does not apply changes nothing, not
  even the trace of outbound calls: \<open>play\<close> (with or without a configuration) unless the
  state is \<open>Stopped\<close>, \<open>pause\<close> unless it is \<open>Playing\<close>, \<open>resume\<close> unless it is \<open>Paused\<close> with
  the breakpoint flag clear, \<open>stop\<close> when it is \<open>Stopped\<close>. The functions are total: there is
  no error branch to take.
\<close>

theorem misapplied_command_is_noop:
  "(m_state s \<noteq> Stopped \<longrightarrow> play s = s \<and> play_config c s = s) \<and>
   (m_state s \<noteq> Playing \<longrightarrow> pause s = s) \<and>
   (\<not> (m_state s = Paused \<and> \<not> m_atBreakpoint s) \<longrightarrow> resume s = s) \<and>
   (m_state s = Stopped \<longrightarrow> stop s = s)"
  by (simp add: play_def play_config_def pause_def resume_def stop_def)

theorem misapplied_command_is_noop_witness:
  "m_state (run [Play, Pause] init) \<noteq> Stopped \<and>
   play (run [Play, Pause] init) = run [Play, Pause] init \<and>
   play_config default_config (run [Play, Pause] init) = run [Play, Pause] init \<and>
   m_state (run [Play, Pause] init) \<noteq> Playing \<and>
   pause (run [Play, Pause] init) = run [Play, Pause] init \<and>
   \<not> (m_state init = Paused \<and> \<not> m_atBreakpoint init) \<and> resume init = init \<and>
   m_state init = Stopped \<and> stop init = init"
  using misapplied_command_is_noop [of "run [Play, Pause] init" default_config]
    misapplied_command_is_noop [of init default_config]
  by simp

subsection \<open>Stopping\<close>

text \<open>
  C6. After \<open>stop\<close> from any in-play-mode state the variable table is empty, the breakpoint
  registry is what it was before the call, so every lookup by node gives the same answer,
  and the state is \<open>Stopped\<close>.
\<close>

theorem stop_clears_variables_keeps_breakpoints:
  assumes "isInPlayMode s"
  shows "getAllVariables (stop s) = Map.empty \<and>
         getBreakpoints (stop s) = getBreakpoints s \<and>
         getBreakpointForNode (stop s) n = getBreakpointForNode s n \<and>
         m_state (stop s) = Stopped"
proof -
  from assms have "m_state s \<noteq> Stopped"
    by (auto simp: isInPlayMode_def)
  then have "stop s = exitPlayMode s"
    by (simp add: stop_def)
  then show ?thesis
    by (simp add: getAllVariables_def getBreakpoints_def getBreakpointForNode_def)
qed

theorem stop_clears_variables_keeps_breakpoints_witness:
  "isInPlayMode (run [Play, AddBreakpoint ''n1'' [], SetVariable ''x'' ''1''] init) \<and>
   getAllVariables (run [Play, AddBreakpoint ''n1'' [], SetVariable ''x'' ''1''] init) \<noteq> Map.empty \<and>
   getAllVariables (stop (run [Play, AddBreakpoint ''n1'' [], SetVariable ''x'' ''1''] init)) = Map.empty \<and>
   getBreakpointForNode (stop (run [Play, AddBreakpoint ''n1'' [], SetVariable ''x'' ''1''] init)) ''n1'' =
     Some \<lparr>bp_id = ''bp_1'', nodeId = ''n1'', condition = [], enabled = True, hitOnce = False,
           hitCount = 0\<rparr> \<and>
   m_state (stop (run [Play, AddBreakpoint ''n1'' [], SetVariable ''x'' ''1''] init)) = Stopped"
proof -
  have h: "isInPlayMode (run [Play, AddBreakpoint ''n1'' [], SetVariable ''x'' ''1''] init)"
    by (simp add: isInPlayMode_def setVariable_def)
  have b: "getBreakpointForNode (run [Play, AddBreakpoint ''n1'' [], SetVariable ''x'' ''1''] init) ''n1'' =
     Some \<lparr>bp_id = ''bp_1'', nodeId = ''n1'', condition = [], enabled = True, hitOnce = False,
           hitCount = 0\<rparr>"
    by (simp add: ctl_defs)
  have v: "getAllVariables (run [Play, AddBreakpoint ''n1'' [], SetVariable ''x'' ''1''] init) \<noteq> Map.empty"
    by (simp add: getAllVariables_def setVariable_def)
  show ?thesis
    using stop_clears_variables_keeps_breakpoints [OF h, of "''n1''"] h b v by simp
qed

subsection \<open>Stepping\<close>

text \<open>
  C2. \<open>stepNext\<close>, \<open>stepInto\<close> and \<open>stepOut\<close> return at once unless the state is \<open>Paused\<close>, and
  when it is \<open>Paused\<close> they call \<open>update (1 / 60)\<close>, which returns at once unless the state is
  \<open>Playing\<close>. So a step changes nothing in any state: paused after \<open>play\<close> and \<open>pause\<close>, the
  controller is left paused, but no frame is counted, no play time is added and the playback
  engine receives no update.
\<close>

theorem step_while_paused_advances_nothing:
  "m_state (run [Play, Pause] init) = Paused \<and>
   stepNext (run [Play, Pause] init) = run [Play, Pause] init \<and>
   stepInto (run [Play, Pause] init) = run [Play, Pause] init \<and>
   stepOut (run [Play, Pause] init) = run [Play, Pause] init \<and>
   frameCount (m_stats (stepNext (run [Play, Pause] init))) = 0 \<and>
   totalPlayTime (m_stats (stepNext (run [Play, Pause] init))) = 0 \<and>
   Engine (EngineUpdate (1 / 60)) \<notin> set (effects (stepNext (run [Play, Pause] init)))"
  by (simp add: stepNext_noop stepInto_noop stepOut_noop) (simp add: ctl_defs)

subsection \<open>The breakpoint flag\<close>

text \<open>
  C5. The breakpoint flag is set only while the state is \<open>Paused\<close>: this holds after every run
  of commands from the freshly constructed controller, and every command preserves it.
\<close>

theorem at_breakpoint_implies_paused:
  "(m_atBreakpoint (run cs init) \<longrightarrow> m_state (run cs init) = Paused) \<and>
   ((m_atBreakpoint s \<longrightarrow> m_state s = Paused) \<longrightarrow>
    (m_atBreakpoint (exec c s) \<longrightarrow> m_state (exec c s) = Paused))"
proof -
  have "at_breakpoint_inv init"
    by (simp add: at_breakpoint_inv_def)
  then have "at_breakpoint_inv (run cs init)"
    by (rule run_at_breakpoint_inv)
  moreover have "at_breakpoint_inv s \<longrightarrow> at_breakpoint_inv (exec c s)"
    by (simp add: exec_at_breakpoint_inv)
  ultimately show ?thesis
    by (simp add: at_breakpoint_inv_def)
qed

theorem at_breakpoint_implies_paused_witness:
  "m_atBreakpoint (run [Play, AddBreakpoint ''n1'' [], JumpToNode ''n1'', Update (1 / 60)] init) \<and>
   m_state (run [Play, AddBreakpoint ''n1'' [], JumpToNode ''n1'', Update (1 / 60)] init) = Paused \<and>
   m_atBreakpoint (exec (SetVariable ''x'' ''1'')
     (run [Play, AddBreakpoint ''n1'' [], JumpToNode ''n1'', Update (1 / 60)] init)) \<and>
   m_state (exec (SetVariable ''x'' ''1'')
     (run [Play, AddBreakpoint ''n1'' [], JumpToNode ''n1'', Update (1 / 60)] init)) = Paused"
proof -
  have a: "m_atBreakpoint (run [Play, AddBreakpoint ''n1'' [], JumpToNode ''n1'', Update (1 / 60)] init)"
    by (simp add: ctl_defs)
  have b: "m_atBreakpoint (exec (SetVariable ''x'' ''1'')
     (run [Play, AddBreakpoint ''n1'' [], JumpToNode ''n1'', Update (1 / 60)] init))"
    using a by (simp add: setVariable_def)
  show ?thesis
    using a b
      at_breakpoint_implies_paused
        [of "[Play, AddBreakpoint ''n1'' [], JumpToNode ''n1'', Update (1 / 60)]"
          "run [Play, AddBreakpoint ''n1'' [], JumpToNode ''n1'', Update (1 / 60)] init"
          "SetVariable ''x'' ''1''"]
    by blast
qed

subsection \<open>One breakpoint per node\<close>

lemma find_append_None: "find P xs = None \<Longrightarrow> find P (xs @ ys) = find P ys"
  by (induction xs) (auto split: if_splits)

text \<open>
  C9. In every state reached by a run of commands no two breakpoints target the same node.
  In such a state, after two calls of \<open>addBreakpoint\<close> with the same node (whatever the
  condition strings) exactly one breakpoint targets the node; the second call is rejected
  and changes nothing; and when no breakpoint targeted the node before, that breakpoint is
  the one the first call created, with the first call's condition.
\<close>

theorem addBreakpoint_twice_one_breakpoint:
  assumes "s = run cs init"
  shows "distinct (map nodeId (m_breakpoints s)) \<and>
         addBreakpoint n c2 (addBreakpoint n c1 s) = addBreakpoint n c1 s \<and>
         length (filter (\<lambda>b. nodeId b = n)
           (m_breakpoints (addBreakpoint n c2 (addBreakpoint n c1 s)))) = 1 \<and>
         (getBreakpointForNode s n = None \<longrightarrow>
          getBreakpointForNode (addBreakpoint n c2 (addBreakpoint n c1 s)) n =
            Some \<lparr>bp_id = bp_name (m_nextBreakpointId s), nodeId = n, condition = c1,
                  enabled = True, hitOnce = False, hitCount = 0\<rparr>)"
proof -
  have d: "distinct (map nodeId (m_breakpoints s))"
    unfolding assms by (rule run_distinct_nodes) simp
  have r: "addBreakpoint n c2 (addBreakpoint n c1 s) = addBreakpoint n c1 s"
    by (rule addBreakpoint_rejected) (rule addBreakpoint_present)
  have "distinct (map nodeId (m_breakpoints (addBreakpoint n c1 s)))"
    using d by (rule addBreakpoint_distinct_nodes)
  then have one: "length (filter (\<lambda>b. nodeId b = n) (m_breakpoints (addBreakpoint n c1 s))) = 1"
    using addBreakpoint_present by (rule filter_distinct_map_one)
  have "getBreakpointForNode (addBreakpoint n c1 s) n =
          Some \<lparr>bp_id = bp_name (m_nextBreakpointId s), nodeId = n, condition = c1,
                enabled = True, hitOnce = False, hitCount = 0\<rparr>"
    if "getBreakpointForNode s n = None"
  proof -
    from that have absent: "n \<notin> nodeId ` set (m_breakpoints s)"
      by (simp add: getBreakpointForNode_def find_None_nodeId)
    then have "find (\<lambda>b. nodeId b = n) (m_breakpoints s) = None"
      by (simp add: find_None_nodeId)
    with absent show ?thesis
      by (simp add: getBreakpointForNode_def addBreakpoint_breakpoints find_append_None)
  qed
  with d r one show ?thesis by simp
qed

theorem addBreakpoint_twice_one_breakpoint_witness:
  "getBreakpointForNode (run [AddBreakpoint ''n0'' []] init) ''n1'' = None \<and>
   m_breakpoints (addBreakpoint ''n1'' ''y'' (addBreakpoint ''n1'' ''x'' (run [AddBreakpoint ''n0'' []] init))) =
     [\<lparr>bp_id = ''bp_1'', nodeId = ''n0'', condition = [], enabled = True, hitOnce = False, hitCount = 0\<rparr>,
      \<lparr>bp_id = ''bp_2'', nodeId = ''n1'', condition = ''x'', enabled = True, hitOnce = False, hitCount = 0\<rparr>] \<and>
   length (filter (\<lambda>b. nodeId b = ''n1'')
     (m_breakpoints (addBreakpoint ''n1'' ''y'' (addBreakpoint ''n1'' ''x'' (run [AddBreakpoint ''n0'' []] init))))) = 1 \<and>
   getBreakpointForNode (addBreakpoint ''n1'' ''y'' (addBreakpoint ''n1'' ''x'' (run [AddBreakpoint ''n0'' []] init))) ''n1'' =
     Some \<lparr>bp_id = ''bp_2'', nodeId = ''n1'', condition = ''x'', enabled = True, hitOnce = False, hitCount = 0\<rparr>"
proof -
  have a: "getBreakpointForNode (run [AddBreakpoint ''n0'' []] init) ''n1'' = None"
    by (simp add: ctl_defs)
  have m: "m_breakpoints (addBreakpoint ''n1'' ''x'' (run [AddBreakpoint ''n0'' []] init)) =
     [\<lparr>bp_id = ''bp_1'', nodeId = ''n0'', condition = [], enabled = True, hitOnce = False, hitCount = 0\<rparr>,
      \<lparr>bp_id = ''bp_2'', nodeId = ''n1'', condition = ''x'', enabled = True, hitOnce = False, hitCount = 0\<rparr>]"
    by (simp add: ctl_defs)
  have k: "bp_name (m_nextBreakpointId (run [AddBreakpoint ''n0'' []] init)) = ''bp_2''"
    by (simp add: ctl_defs)
  show ?thesis
    using addBreakpoint_twice_one_breakpoint
      [of "run [AddBreakpoint ''n0'' []] init" "[AddBreakpoint ''n0'' []]" "''n1''" "''y''" "''x''"]
      a m k
    by (simp add: getBreakpointForNode_def)
qed

subsection \<open>When the collections are cleared\<close>

text \<open>
  C3, as stated, fails: \<open>addBreakpoint\<close> and \<open>setVariable\<close> have no state guard, so on a
  stopped controller both collections become non-empty; and the exit-play-mode path run by
  \<open>stop\<close> leaves the breakpoint list as it is. Only the breakpoint half is the code's design
  (breakpoints are kept across play sessions); \<open>setVariable\<close> lacks the play-mode guard that
  \<open>jumpToScene\<close> and \<open>jumpToNode\<close> have, although it is documented as setting a variable
  during play.
\<close>

theorem collections_nonempty_outside_play_mode:
  "\<not> isInPlayMode (run [AddBreakpoint ''node_1'' ''points > 10'', SetVariable ''x'' ''1''] init) \<and>
   m_breakpoints (run [AddBreakpoint ''node_1'' ''points > 10'', SetVariable ''x'' ''1''] init) \<noteq> [] \<and>
   m_variables (run [AddBreakpoint ''node_1'' ''points > 10'', SetVariable ''x'' ''1''] init) ''x'' =
     Some ''1'' \<and>
   m_state (run [Play, AddBreakpoint ''node_1'' ''points > 10''] init) = Playing \<and>
   m_breakpoints (stop (run [Play, AddBreakpoint ''node_1'' ''points > 10''] init)) \<noteq> []"
  by (simp add: ctl_defs)

text \<open>
  C3, amended. \<open>shutdown\<close> clears both the breakpoint list and the variable table. \<open>stop\<close>
  from a state other than \<open>Stopped\<close> (the exit-play-mode path) clears the variable table and
  leaves the breakpoint list unchanged. The breakpoint list is not tied to play mode:
  \<open>addBreakpoint\<close> for a node without a breakpoint makes it non-empty in every state, in play
  mode or not.
\<close>

theorem collections_cleared_amended:
  "m_breakpoints (shutdown s) = [] \<and> m_variables (shutdown s) = Map.empty \<and>
   (m_state s \<noteq> Stopped \<longrightarrow>
      m_variables (stop s) = Map.empty \<and> m_breakpoints (stop s) = m_breakpoints s) \<and>
   (getBreakpointForNode s n = None \<longrightarrow>
      m_breakpoints (addBreakpoint n c s) \<noteq> [] \<and>
      isInPlayMode (addBreakpoint n c s) = isInPlayMode s)"
  by (simp add: stop_def isInPlayMode_def addBreakpoint_def generateBreakpointId_def)

theorem collections_cleared_amended_witness:
  "m_state (run [Play, AddBreakpoint ''n1'' [], SetVariable ''x'' ''1''] init) \<noteq> Stopped \<and>
   m_variables (run [Play, AddBreakpoint ''n1'' [], SetVariable ''x'' ''1''] init) \<noteq> Map.empty \<and>
   m_variables (stop (run [Play, AddBreakpoint ''n1'' [], SetVariable ''x'' ''1''] init)) = Map.empty \<and>
   m_breakpoints (stop (run [Play, AddBreakpoint ''n1'' [], SetVariable ''x'' ''1''] init)) =
     m_breakpoints (run [Play, AddBreakpoint ''n1'' [], SetVariable ''x'' ''1''] init) \<and>
   m_breakpoints (shutdown (run [Play, AddBreakpoint ''n1'' [], SetVariable ''x'' ''1''] init)) = [] \<and>
   getBreakpointForNode (run [Play, AddBreakpoint ''n1'' [], SetVariable ''x'' ''1''] init) ''n2'' = None \<and>
   m_breakpoints (addBreakpoint ''n2'' []
     (run [Play, AddBreakpoint ''n1'' [], SetVariable ''x'' ''1''] init)) \<noteq> []"
proof -
  have a: "m_state (run [Play, AddBreakpoint ''n1'' [], SetVariable ''x'' ''1''] init) \<noteq> Stopped"
    by (simp add: ctl_defs)
  have b: "getBreakpointForNode (run [Play, AddBreakpoint ''n1'' [], SetVariable ''x'' ''1''] init) ''n2'' = None"
    by (simp add: ctl_defs)
  have c: "m_variables (run [Play, AddBreakpoint ''n1'' [], SetVariable ''x'' ''1''] init) \<noteq> Map.empty"
    by (simp add: ctl_defs)
  show ?thesis
    using a b c
      collections_cleared_amended
        [of "run [Play, AddBreakpoint ''n1'' [], SetVariable ''x'' ''1''] init" "''n2''" "[]"]
    by blast
qed

subsection \<open>Leaving a breakpoint pause\<close>

text \<open>
  C4, as stated, fails: paused at a breakpoint, \<open>restart\<close> clears the flag and resumes, so
  it is a single public command other than \<open>continueExecution\<close> that takes the controller
  back to \<open>Playing\<close>.
\<close>

theorem restart_leaves_breakpoint_pause:
  "m_state (run [Play, AddBreakpoint ''n1'' [], JumpToNode ''n1'', Update (1 / 60)] init) = Paused \<and>
   m_atBreakpoint (run [Play, AddBreakpoint ''n1'' [], JumpToNode ''n1'', Update (1 / 60)] init) \<and>
   m_state (restart (run [Play, AddBreakpoint ''n1'' [], JumpToNode ''n1'', Update (1 / 60)] init)) = Playing \<and>
   \<not> m_atBreakpoint (restart (run [Play, AddBreakpoint ''n1'' [], JumpToNode ''n1'', Update (1 / 60)] init))"
  by (simp add: ctl_defs)

text \<open>
  C4, amended. Paused at a breakpoint, \<open>resume\<close> is rejected; \<open>continueExecution\<close> clears the
  flag and goes to \<open>Playing\<close>; and a single command takes the controller to \<open>Playing\<close> exactly
  when it is \<open>continueExecution\<close>, \<open>togglePlayPause\<close> (which calls \<open>continueExecution\<close>) or
  \<open>restart\<close> (which clears the flag itself and calls \<open>resume\<close>).
\<close>

theorem breakpoint_pause_exits:
  assumes "m_state s = Paused" and "m_atBreakpoint s"
  shows "resume s = s \<and>
         m_state (continueExecution s) = Playing \<and> \<not> m_atBreakpoint (continueExecution s) \<and>
         (m_state (exec c s) = Playing \<longleftrightarrow>
            c = ContinueExecution \<or> c = TogglePlayPause \<or> c = Restart)"
proof -
  have r: "resume s = s"
    using assms by (simp add: resume_def)
  have "m_state (exec c s) = Playing \<longleftrightarrow>
          c = ContinueExecution \<or> c = TogglePlayPause \<or> c = Restart"
  proof (cases c)
    case (RenderToolbar b)
    then show ?thesis
      using assms r
      by (simp add: renderToolbar_with_def Let_def isInPlayMode_def stepNext_noop stepInto_noop
          stepOut_noop)
  next
    case (Update d)
    then show ?thesis using assms by (simp add: update_def)
  qed (use assms in \<open>simp_all add: stepNext_noop stepInto_noop stepOut_noop
        setDefaultConfig_def setBreakpointEnabled_def clearAllBreakpoints_def jumpToScene_def
        jumpToNode_def setVariable_def addListener_def removeListener_def
        renderDebugOverlay_def\<close>)
  with r assms show ?thesis by simp
qed

theorem breakpoint_pause_exits_witness:
  "m_state (run [Play, AddBreakpoint ''n1'' [], JumpToNode ''n1'', Update (1 / 60)] init) = Paused \<and>
   m_atBreakpoint (run [Play, AddBreakpoint ''n1'' [], JumpToNode ''n1'', Update (1 / 60)] init) \<and>
   m_state (continueExecution
     (run [Play, AddBreakpoint ''n1'' [], JumpToNode ''n1'', Update (1 / 60)] init)) = Playing \<and>
   m_state (exec Stop
     (run [Play, AddBreakpoint ''n1'' [], JumpToNode ''n1'', Update (1 / 60)] init)) \<noteq> Playing"
proof -
  have a: "m_state (run [Play, AddBreakpoint ''n1'' [], JumpToNode ''n1'', Update (1 / 60)] init) = Paused"
    by (simp add: ctl_defs)
  have b: "m_atBreakpoint (run [Play, AddBreakpoint ''n1'' [], JumpToNode ''n1'', Update (1 / 60)] init)"
    by (simp add: ctl_defs)
  show ?thesis
    using a b breakpoint_pause_exits [OF a b, of Stop] by simp
qed

subsection \<open>Hitting a breakpoint\<close>

text \<open>
  With one breakpoint per node, a breakpoint of the registry that targets a node is the one
  the lookup for that node returns.
\<close>

lemma lookup_of_member:
  assumes "distinct (map nodeId (m_breakpoints s))" and "bp \<in> set (m_breakpoints s)"
  shows "getBreakpointForNode s (nodeId bp) = Some bp"
proof -
  have "find (\<lambda>b. nodeId b = nodeId bp) bs = Some bp"
    if "distinct (map nodeId bs)" and "bp \<in> set bs" for bs
    using that by (induction bs) auto
  with assms show ?thesis
    by (simp add: getBreakpointForNode_def)
qed

lemma distinct_ids_same:
  "distinct (map bp_id (b # bs)) \<Longrightarrow> bp \<in> set (b # bs) \<Longrightarrow> bp_id b = bp_id bp \<Longrightarrow> b = bp"
  by auto

lemma register_hit_distinct_ids:
  assumes "distinct (map bp_id bs)" and "bp \<in> set bs"
  shows "register_hit (bp_id bp) bs =
           (if hitOnce bp then remove1 bp bs
            else map (\<lambda>b. if b = bp then bp\<lparr>hitCount := hitCount bp + 1\<rparr> else b) bs)"
  using assms
proof (induction bs)
  case Nil
  then show ?case by simp
next
  case (Cons b bs)
  show ?case
  proof (cases "bp_id b = bp_id bp")
    case True
    with Cons.prems have eq: "b = bp" by (intro distinct_ids_same)
    with Cons.prems(1) have "bp \<notin> set bs" by auto
    then have "map (\<lambda>b. if b = bp then bp\<lparr>hitCount := hitCount bp + 1\<rparr> else b) bs = bs"
      by (intro map_idI) auto
    with eq show ?thesis by (simp add: Let_def)
  next
    case False
    then have "b \<noteq> bp" by auto
    with Cons False show ?thesis by auto
  qed
qed

lemma find_map_replace:
  assumes "find (\<lambda>b. nodeId b = n) bs = Some bp" and "nodeId bp' = nodeId bp"
  shows "find (\<lambda>b. nodeId b = n) (map (\<lambda>b. if b = bp then bp' else b) bs) = Some bp'"
  using assms by (induction bs) (auto split: if_splits)

lemma update_hit_unfold:
  assumes "m_state s = Playing" and "enableBreakpoints (m_config s)"
    and "m_currentNodeId s \<noteq> []"
    and "getBreakpointForNode s (m_currentNodeId s) = Some bp" and "enabled bp"
  shows "update dt s =
           notifyBreakpointHit bp (pause (mark_hit bp
             (emit [Engine (EngineUpdate (dt * timeScale (m_config s)))]
               (updateStats (dt * timeScale (m_config s)) s))))"
proof -
  have "getBreakpointForNode
          (emit [Engine (EngineUpdate (dt * timeScale (m_config s)))]
            (updateStats (dt * timeScale (m_config s)) s)) (m_currentNodeId s) = Some bp"
    using assms(4) by (simp add: getBreakpointForNode_def)
  with assms show ?thesis
    by (simp add: update_def Let_def)
qed

lemma update_hit_registry:
  assumes "m_state s = Playing" and "enableBreakpoints (m_config s)"
    and "m_currentNodeId s \<noteq> []"
    and "getBreakpointForNode s (m_currentNodeId s) = Some bp" and "enabled bp"
    and "distinct (map bp_id (m_breakpoints s))"
  shows "m_breakpoints (update dt s) =
           (if hitOnce bp then remove1 bp (m_breakpoints s)
            else map (\<lambda>b. if b = bp then bp\<lparr>hitCount := hitCount bp + 1\<rparr> else b)
                   (m_breakpoints s))"
proof -
  from assms(4) have "bp \<in> set (m_breakpoints s)"
    by (auto simp: getBreakpointForNode_def dest: find_Some_mem)
  with assms(6) have "register_hit (bp_id bp) (m_breakpoints s) =
           (if hitOnce bp then remove1 bp (m_breakpoints s)
            else map (\<lambda>b. if b = bp then bp\<lparr>hitCount := hitCount bp + 1\<rparr> else b)
                   (m_breakpoints s))"
    by (rule register_hit_distinct_ids)
  then show ?thesis
    by (simp add: update_hit_unfold [OF assms(1-5)])
qed

lemma update_hit_lookup:
  assumes "m_state s = Playing" and "enableBreakpoints (m_config s)"
    and "m_currentNodeId s \<noteq> []"
    and "getBreakpointForNode s (m_currentNodeId s) = Some bp" and "enabled bp"
    and "distinct (map bp_id (m_breakpoints s))" and "\<not> hitOnce bp"
  shows "getBreakpointForNode (update dt s) (m_currentNodeId s) =
           Some (bp\<lparr>hitCount := hitCount bp + 1\<rparr>)"
proof -
  have "find (\<lambda>b. nodeId b = m_currentNodeId s)
          (map (\<lambda>b. if b = bp then bp\<lparr>hitCount := hitCount bp + 1\<rparr> else b) (m_breakpoints s)) =
        Some (bp\<lparr>hitCount := hitCount bp + 1\<rparr>)"
    using assms(4) by (intro find_map_replace) (simp_all add: getBreakpointForNode_def)
  then show ?thesis
    using assms(7) by (simp add: getBreakpointForNode_def update_hit_registry [OF assms(1-6)])
qed

text \<open>
  The calls of \<open>pause\<close> and of the breakpoint notification, each with the view its callee has.
\<close>

lemma pause_calls:
  "m_state s = Playing \<Longrightarrow>
   calls (pause s) =
     calls s @
     map (\<lambda>e. (e, \<lparr>seen_state = Paused, seen_breakpoints = m_breakpoints s\<rparr>))
       (Engine EnginePause #
        map (\<lambda>l. Listener l (onPlayModeStateChanged Playing Paused)) (m_listeners s) @
        map (\<lambda>l. Listener l onPlayModePaused) (m_listeners s) @
        [Publish (PlayModeStateChangedEvent Playing Paused)])"
  by (simp add: pause_def Let_def out_defs view_of_def)

lemma pause_listeners [simp]: "m_listeners (pause s) = m_listeners s"
  by (simp add: pause_def Let_def out_defs)

lemma notifyBreakpointHit_calls:
  "calls (notifyBreakpointHit bp s) =
     calls s @
     map (\<lambda>e. (e, \<lparr>seen_state = m_state s, seen_breakpoints = m_breakpoints s\<rparr>))
       (map (\<lambda>l. Listener l (onBreakpointHit bp)) (m_listeners s) @
        [Publish (BreakpointHitEvent (bp_id bp) (nodeId bp) (hitCount bp))])"
  by (simp add: out_defs view_of_def)

lemma update_hit_calls:
  assumes "m_state s = Playing" and "enableBreakpoints (m_config s)"
    and "m_currentNodeId s \<noteq> []"
    and "getBreakpointForNode s (m_currentNodeId s) = Some bp" and "enabled bp"
  shows "calls (update dt s) =
           calls s @
           (Engine (EngineUpdate (dt * timeScale (m_config s))),
            \<lparr>seen_state = Playing, seen_breakpoints = m_breakpoints s\<rparr>) #
           map (\<lambda>e. (e, \<lparr>seen_state = Paused, seen_breakpoints = m_breakpoints (update dt s)\<rparr>))
             (Engine EnginePause #
              map (\<lambda>l. Listener l (onPlayModeStateChanged Playing Paused)) (m_listeners s) @
              map (\<lambda>l. Listener l onPlayModePaused) (m_listeners s) @
              Publish (PlayModeStateChangedEvent Playing Paused) #
              map (\<lambda>l. Listener l (onBreakpointHit bp)) (m_listeners s) @
              [Publish (BreakpointHitEvent (bp_id bp) (nodeId bp) (hitCount bp))])"
proof -
  let ?s1 = "updateStats (dt * timeScale (m_config s)) s"
  let ?s2 = "emit [Engine (EngineUpdate (dt * timeScale (m_config s)))] ?s1"
  have u: "update dt s = notifyBreakpointHit bp (pause (mark_hit bp ?s2))"
    using assms by (rule update_hit_unfold)
  have v1: "view_of ?s1 = \<lparr>seen_state = Playing, seen_breakpoints = m_breakpoints s\<rparr>"
    using assms(1) by (simp add: view_of_def)
  have playing: "m_state (mark_hit bp ?s2) = Playing"
    using assms(1) by simp
  have final: "m_breakpoints (update dt s) = m_breakpoints (mark_hit bp ?s2)"
    by (simp add: u)
  show ?thesis
    unfolding final
    using assms(1)
    by (simp add: u notifyBreakpointHit_calls pause_calls [OF playing] v1)
qed

text \<open>
  C1. Playing, with breakpoints enabled in the active configuration, a non-empty current
  node, and the lookup for that node giving an enabled breakpoint \<open>bp\<close>: \<open>update\<close> sets the
  breakpoint flag and ends in \<open>Paused\<close>; the registry entry of \<open>bp\<close> has its hit count
  incremented, or is removed when \<open>hitOnce\<close> is set. The increment and the removal come
  before the pause transition: of the calls \<open>update\<close> makes, only the engine update, made
  before the breakpoint is looked up, sees the state \<open>Playing\<close> and the old registry; every
  call of the pause transition (the engine's pause, \<open>onPlayModeStateChanged\<close>,
  \<open>onPlayModePaused\<close>, the state-change event) and of the breakpoint notification sees the
  state \<open>Paused\<close> together with the final registry, so no listener observing the pause can
  see a registry that is still to change.
  The entry is found again by its id, so the ids in the registry are taken to be distinct;
  \<open>run_registry_well_formed\<close> shows that they are after every run that cannot wrap the id
  counter, and \<open>lookup_of_member\<close> that the lookup returns the breakpoint of the registry that
  targets the node.
\<close>

theorem update_pauses_at_breakpoint:
  assumes "m_state s = Playing" and "enableBreakpoints (m_config s)"
    and "m_currentNodeId s \<noteq> []"
    and "getBreakpointForNode s (m_currentNodeId s) = Some bp" and "enabled bp"
    and "distinct (map bp_id (m_breakpoints s))"
  shows "m_atBreakpoint (update dt s) \<and> m_state (update dt s) = Paused \<and>
         m_breakpoints (update dt s) =
           (if hitOnce bp then remove1 bp (m_breakpoints s)
            else map (\<lambda>b. if b = bp then bp\<lparr>hitCount := hitCount bp + 1\<rparr> else b)
                   (m_breakpoints s)) \<and>
         (hitOnce bp \<longrightarrow> bp \<notin> set (m_breakpoints (update dt s))) \<and>
         (\<not> hitOnce bp \<longrightarrow>
            getBreakpointForNode (update dt s) (m_currentNodeId s) =
              Some (bp\<lparr>hitCount := hitCount bp + 1\<rparr>)) \<and>
         calls (update dt s) =
           calls s @
           (Engine (EngineUpdate (dt * timeScale (m_config s))),
            \<lparr>seen_state = Playing, seen_breakpoints = m_breakpoints s\<rparr>) #
           map (\<lambda>e. (e, \<lparr>seen_state = Paused, seen_breakpoints = m_breakpoints (update dt s)\<rparr>))
             (Engine EnginePause #
              map (\<lambda>l. Listener l (onPlayModeStateChanged Playing Paused)) (m_listeners s) @
              map (\<lambda>l. Listener l onPlayModePaused) (m_listeners s) @
              Publish (PlayModeStateChangedEvent Playing Paused) #
              map (\<lambda>l. Listener l (onBreakpointHit bp)) (m_listeners s) @
              [Publish (BreakpointHitEvent (bp_id bp) (nodeId bp) (hitCount bp))])"
proof -
  let ?s2 = "emit [Engine (EngineUpdate (dt * timeScale (m_config s)))]
               (updateStats (dt * timeScale (m_config s)) s)"
  have u: "update dt s = notifyBreakpointHit bp (pause (mark_hit bp ?s2))"
    using assms(1-5) by (rule update_hit_unfold)
  have flag: "m_atBreakpoint (update dt s)" and st: "m_state (update dt s) = Paused"
    using assms(1) by (simp_all add: u)
  have reg: "m_breakpoints (update dt s) =
           (if hitOnce bp then remove1 bp (m_breakpoints s)
            else map (\<lambda>b. if b = bp then bp\<lparr>hitCount := hitCount bp + 1\<rparr> else b)
                   (m_breakpoints s))"
    using assms by (rule update_hit_registry)
  have "distinct (m_breakpoints s)"
    using assms(6) by (rule distinct_map [THEN iffD1, THEN conjunct1])
  then have gone: "hitOnce bp \<longrightarrow> bp \<notin> set (m_breakpoints (update dt s))"
    by (simp add: reg)
  have look: "\<not> hitOnce bp \<longrightarrow>
            getBreakpointForNode (update dt s) (m_currentNodeId s) =
              Some (bp\<lparr>hitCount := hitCount bp + 1\<rparr>)"
    using assms by (simp add: update_hit_lookup)
  note trace = update_hit_calls [OF assms(1-5), of dt]
  from flag st reg gone look trace show ?thesis by (intro conjI)
qed

theorem update_pauses_at_breakpoint_witness:
  "m_state (run [AddListener 7, Play, AddBreakpoint ''n1'' [], JumpToNode ''n1''] init) = Playing \<and>
   enableBreakpoints
     (m_config (run [AddListener 7, Play, AddBreakpoint ''n1'' [], JumpToNode ''n1''] init)) \<and>
   m_currentNodeId (run [AddListener 7, Play, AddBreakpoint ''n1'' [], JumpToNode ''n1''] init) =
     ''n1'' \<and>
   getBreakpointForNode
     (run [AddListener 7, Play, AddBreakpoint ''n1'' [], JumpToNode ''n1''] init) ''n1'' =
     Some \<lparr>bp_id = ''bp_1'', nodeId = ''n1'', condition = [], enabled = True, hitOnce = False,
           hitCount = 0\<rparr> \<and>
   m_state (update (1 / 60)
     (run [AddListener 7, Play, AddBreakpoint ''n1'' [], JumpToNode ''n1''] init)) = Paused \<and>
   m_atBreakpoint (update (1 / 60)
     (run [AddListener 7, Play, AddBreakpoint ''n1'' [], JumpToNode ''n1''] init)) \<and>
   getBreakpointForNode (update (1 / 60)
     (run [AddListener 7, Play, AddBreakpoint ''n1'' [], JumpToNode ''n1''] init)) ''n1'' =
     Some \<lparr>bp_id = ''bp_1'', nodeId = ''n1'', condition = [], enabled = True, hitOnce = False,
           hitCount = 1\<rparr> \<and>
   calls (update (1 / 60)
     (run [AddListener 7, Play, AddBreakpoint ''n1'' [], JumpToNode ''n1''] init)) =
     calls (run [AddListener 7, Play, AddBreakpoint ''n1'' [], JumpToNode ''n1''] init) @
     [(Engine (EngineUpdate (1 / 60)),
       \<lparr>seen_state = Playing, seen_breakpoints =
          [\<lparr>bp_id = ''bp_1'', nodeId = ''n1'', condition = [], enabled = True, hitOnce = False,
            hitCount = 0\<rparr>]\<rparr>),
      (Engine EnginePause,
       \<lparr>seen_state = Paused, seen_breakpoints =
          [\<lparr>bp_id = ''bp_1'', nodeId = ''n1'', condition = [], enabled = True, hitOnce = False,
            hitCount = 1\<rparr>]\<rparr>),
      (Listener 7 (onPlayModeStateChanged Playing Paused),
       \<lparr>seen_state = Paused, seen_breakpoints =
          [\<lparr>bp_id = ''bp_1'', nodeId = ''n1'', condition = [], enabled = True, hitOnce = False,
            hitCount = 1\<rparr>]\<rparr>),
      (Listener 7 onPlayModePaused,
       \<lparr>seen_state = Paused, seen_breakpoints =
          [\<lparr>bp_id = ''bp_1'', nodeId = ''n1'', condition = [], enabled = True, hitOnce = False,
            hitCount = 1\<rparr>]\<rparr>),
      (Publish (PlayModeStateChangedEvent Playing Paused),
       \<lparr>seen_state = Paused, seen_breakpoints =
          [\<lparr>bp_id = ''bp_1'', nodeId = ''n1'', condition = [], enabled = True, hitOnce = False,
            hitCount = 1\<rparr>]\<rparr>),
      (Listener 7 (onBreakpointHit
         \<lparr>bp_id = ''bp_1'', nodeId = ''n1'', condition = [], enabled = True, hitOnce = False,
           hitCount = 0\<rparr>),
       \<lparr>seen_state = Paused, seen_breakpoints =
          [\<lparr>bp_id = ''bp_1'', nodeId = ''n1'', condition = [], enabled = True, hitOnce = False,
            hitCount = 1\<rparr>]\<rparr>),
      (Publish (BreakpointHitEvent ''bp_1'' ''n1'' 0),
       \<lparr>seen_state = Paused, seen_breakpoints =
          [\<lparr>bp_id = ''bp_1'', nodeId = ''n1'', condition = [], enabled = True, hitOnce = False,
            hitCount = 1\<rparr>]\<rparr>)] \<and>
   m_breakpoints (update (1 / 60)
     ((run [Play, JumpToNode ''n1''] init)
        \<lparr>m_breakpoints := [\<lparr>bp_id = ''bp_1'', nodeId = ''n1'', condition = [], enabled = True,
            hitOnce = True, hitCount = 0\<rparr>]\<rparr>)) = []"
proof -
  let ?s = "run [AddListener 7, Play, AddBreakpoint ''n1'' [], JumpToNode ''n1''] init"
  let ?bp = "\<lparr>bp_id = ''bp_1'', nodeId = ''n1'', condition = [], enabled = True, hitOnce = False,
           hitCount = 0 :: 32 word\<rparr>"
  let ?once = "\<lparr>bp_id = ''bp_1'', nodeId = ''n1'', condition = [], enabled = True, hitOnce = True,
           hitCount = 0 :: 32 word\<rparr>"
  let ?t = "(run [Play, JumpToNode ''n1''] init)\<lparr>m_breakpoints := [?once]\<rparr>"
  have h1: "m_state ?s = Playing" by (simp add: ctl_defs)
  have h2: "enableBreakpoints (m_config ?s)" by (simp add: ctl_defs)
  have n: "m_currentNodeId ?s = ''n1''" by (simp add: ctl_defs)
  then have h3: "m_currentNodeId ?s \<noteq> []" by simp
  have h4: "getBreakpointForNode ?s (m_currentNodeId ?s) = Some ?bp" by (simp add: ctl_defs)
  have h5: "enabled ?bp" by simp
  have h6: "distinct (map bp_id (m_breakpoints ?s))" by (simp add: ctl_defs)
  have m: "m_breakpoints ?s = [?bp]" by (simp add: ctl_defs)
  have l: "m_listeners ?s = [7]" by (simp add: ctl_defs)
  have c: "timeScale (m_config ?s) = 1" by (simp add: ctl_defs)
  have t1: "m_state ?t = Playing" by (simp add: ctl_defs)
  have t2: "enableBreakpoints (m_config ?t)" by (simp add: ctl_defs)
  have t3: "m_currentNodeId ?t \<noteq> []" by (simp add: ctl_defs)
  have t4: "getBreakpointForNode ?t (m_currentNodeId ?t) = Some ?once" by (simp add: ctl_defs)
  have t5: "enabled ?once" by simp
  have t6: "distinct (map bp_id (m_breakpoints ?t))" by simp
  show ?thesis
    using update_pauses_at_breakpoint [OF h1 h2 h3 h4 h5 h6, of "1 / 60"]
      update_pauses_at_breakpoint [OF t1 t2 t3 t4 t5 t6, of "1 / 60"] h1 h2 n h4 m l c
    by simp
qed

subsection \<open>What the listeners and the bus are told\<close>

lemma pause_effects:
  "m_state s = Playing \<Longrightarrow>
   effects (pause s) =
     effects s @ [Engine EnginePause] @
     map (\<lambda>l. Listener l (onPlayModeStateChanged Playing Paused)) (m_listeners s) @
     map (\<lambda>l. Listener l onPlayModePaused) (m_listeners s) @
     [Publish (PlayModeStateChangedEvent Playing Paused)]"
  by (simp add: effects_def pause_calls comp_def)

lemma notifyBreakpointHit_effects:
  "effects (notifyBreakpointHit bp s) =
     effects s @ map (\<lambda>l. Listener l (onBreakpointHit bp)) (m_listeners s) @
     [Publish (BreakpointHitEvent (bp_id bp) (nodeId bp) (hitCount bp))]"
  by (simp add: effects_def notifyBreakpointHit_calls comp_def)

text \<open>
  C10. Under the conditions of a breakpoint hit, with \<open>bp\<close> the value the lookup returned
  before the registry was touched: the calls \<open>update\<close> adds to the trace end with
  \<open>onBreakpointHit bp\<close> for each listener, in registration order, and a \<open>BreakpointHitEvent\<close>
  carrying \<open>hitCount bp\<close>, the count before this hit; the registry entry, unless removed for
  \<open>hitOnce\<close>, holds \<open>hitCount bp + 1\<close>. The ids in the registry are taken to be distinct, as
  \<open>run_registry_well_formed\<close> shows them to be.
\<close>

theorem breakpoint_hit_reports_copy:
  assumes "m_state s = Playing" and "enableBreakpoints (m_config s)"
    and "m_currentNodeId s \<noteq> []"
    and "getBreakpointForNode s (m_currentNodeId s) = Some bp" and "enabled bp"
    and "distinct (map bp_id (m_breakpoints s))"
  shows "effects (update dt s) =
           effects s @
           [Engine (EngineUpdate (dt * timeScale (m_config s))), Engine EnginePause] @
           map (\<lambda>l. Listener l (onPlayModeStateChanged Playing Paused)) (m_listeners s) @
           map (\<lambda>l. Listener l onPlayModePaused) (m_listeners s) @
           [Publish (PlayModeStateChangedEvent Playing Paused)] @
           map (\<lambda>l. Listener l (onBreakpointHit bp)) (m_listeners s) @
           [Publish (BreakpointHitEvent (bp_id bp) (nodeId bp) (hitCount bp))] \<and>
         (\<not> hitOnce bp \<longrightarrow>
            getBreakpointForNode (update dt s) (m_currentNodeId s) =
              Some (bp\<lparr>hitCount := hitCount bp + 1\<rparr>))"
proof -
  let ?s2 = "emit [Engine (EngineUpdate (dt * timeScale (m_config s)))]
               (updateStats (dt * timeScale (m_config s)) s)"
  have u: "update dt s = notifyBreakpointHit bp (pause (mark_hit bp ?s2))"
    using assms(1-5) by (rule update_hit_unfold)
  have "m_state (mark_hit bp ?s2) = Playing"
    using assms(1) by simp
  then have "effects (update dt s) =
           effects s @
           [Engine (EngineUpdate (dt * timeScale (m_config s))), Engine EnginePause] @
           map (\<lambda>l. Listener l (onPlayModeStateChanged Playing Paused)) (m_listeners s) @
           map (\<lambda>l. Listener l onPlayModePaused) (m_listeners s) @
           [Publish (PlayModeStateChangedEvent Playing Paused)] @
           map (\<lambda>l. Listener l (onBreakpointHit bp)) (m_listeners s) @
           [Publish (BreakpointHitEvent (bp_id bp) (nodeId bp) (hitCount bp))]"
    by (simp add: u notifyBreakpointHit_effects pause_effects)
  moreover have "\<not> hitOnce bp \<longrightarrow>
            getBreakpointForNode (update dt s) (m_currentNodeId s) =
              Some (bp\<lparr>hitCount := hitCount bp + 1\<rparr>)"
    using assms by (simp add: update_hit_lookup)
  ultimately show ?thesis by blast
qed

theorem breakpoint_hit_reports_copy_witness:
  "m_state (run [AddListener 7, Play, AddBreakpoint ''n1'' [], JumpToNode ''n1''] init) = Playing \<and>
   getBreakpointForNode (run [AddListener 7, Play, AddBreakpoint ''n1'' [], JumpToNode ''n1''] init) ''n1'' =
     Some \<lparr>bp_id = ''bp_1'', nodeId = ''n1'', condition = [], enabled = True, hitOnce = False,
           hitCount = 0\<rparr> \<and>
   effects (update (1 / 60)
       (run [AddListener 7, Play, AddBreakpoint ''n1'' [], JumpToNode ''n1''] init)) =
     effects (run [AddListener 7, Play, AddBreakpoint ''n1'' [], JumpToNode ''n1''] init) @
     [Engine (EngineUpdate (1 / 60)), Engine EnginePause,
      Listener 7 (onPlayModeStateChanged Playing Paused), Listener 7 onPlayModePaused,
      Publish (PlayModeStateChangedEvent Playing Paused),
      Listener 7 (onBreakpointHit \<lparr>bp_id = ''bp_1'', nodeId = ''n1'', condition = [],
        enabled = True, hitOnce = False, hitCount = 0\<rparr>),
      Publish (BreakpointHitEvent ''bp_1'' ''n1'' 0)] \<and>
   getBreakpointForNode (update (1 / 60)
       (run [AddListener 7, Play, AddBreakpoint ''n1'' [], JumpToNode ''n1''] init)) ''n1'' =
     Some \<lparr>bp_id = ''bp_1'', nodeId = ''n1'', condition = [], enabled = True, hitOnce = False,
           hitCount = 1\<rparr>"
proof -
  let ?s = "run [AddListener 7, Play, AddBreakpoint ''n1'' [], JumpToNode ''n1''] init"
  let ?bp = "\<lparr>bp_id = ''bp_1'', nodeId = ''n1'', condition = [], enabled = True, hitOnce = False,
           hitCount = 0 :: 32 word\<rparr>"
  have h1: "m_state ?s = Playing" by (simp add: ctl_defs)
  have h2: "enableBreakpoints (m_config ?s)" by (simp add: ctl_defs)
  have n: "m_currentNodeId ?s = ''n1''" by (simp add: ctl_defs)
  then have h3: "m_currentNodeId ?s \<noteq> []" by simp
  have h4: "getBreakpointForNode ?s (m_currentNodeId ?s) = Some ?bp" by (simp add: ctl_defs)
  have h5: "enabled ?bp" by simp
  have h6: "distinct (map bp_id (m_breakpoints ?s))" by (simp add: ctl_defs)
  have l: "m_listeners ?s = [7]" by (simp add: ctl_defs)
  have c: "timeScale (m_config ?s) = 1" by (simp add: ctl_defs)
  show ?thesis
    using breakpoint_hit_reports_copy [OF h1 h2 h3 h4 h5 h6, of "1 / 60"] h1 n h4 l c
    by simp
qed

subsection \<open>Toggling a breakpoint twice\<close>

lemma erase_first_distinct_ids:
  "distinct (map bp_id bs) \<Longrightarrow> b \<in> set bs \<Longrightarrow>
   erase_first (\<lambda>x. bp_id x = bp_id b) bs = remove1 b bs"
proof (induction bs)
  case Nil
  then show ?case by simp
next
  case (Cons a bs)
  show ?case
  proof (cases "bp_id a = bp_id b")
    case True
    with Cons.prems have "a = b" by (intro distinct_ids_same)
    then show ?thesis by simp
  next
    case False
    then have "a \<noteq> b" by auto
    with Cons False show ?thesis by auto
  qed
qed

lemma erase_first_append_fresh:
  "i \<notin> bp_id ` set bs \<Longrightarrow> bp_id b = i \<Longrightarrow> erase_first (\<lambda>x. bp_id x = i) (bs @ [b]) = bs"
  by (induction bs) auto

lemma remove1_nodes:
  assumes "distinct (map nodeId bs)" and "b \<in> set bs"
  shows "nodeId ` set (remove1 b bs) = nodeId ` set bs - {nodeId b}"
proof -
  from assms(1) have d: "distinct bs" and i: "inj_on nodeId (set bs)"
    by (simp_all add: distinct_map)
  from d have "set (remove1 b bs) = set bs - {b}" by simp
  then have "nodeId ` set (remove1 b bs) = nodeId ` (set bs - {b})" by simp
  also have "\<dots> = nodeId ` set bs - nodeId ` {b}"
    using i assms(2) by (intro inj_on_image_set_diff [of nodeId "set bs"]) auto
  finally show ?thesis by simp
qed

lemma toggle_twice_absent:
  assumes "getBreakpointForNode s n = None"
    and "bp_name (m_nextBreakpointId s) \<notin> bp_id ` set (m_breakpoints s)"
  shows "m_breakpoints (toggleBreakpoint n (toggleBreakpoint n s)) = m_breakpoints s"
proof -
  let ?new = "\<lparr>bp_id = bp_name (m_nextBreakpointId s), nodeId = n, condition = [],
               enabled = True, hitOnce = False, hitCount = 0 :: 32 word\<rparr>"
  from assms(1) have absent: "n \<notin> nodeId ` set (m_breakpoints s)"
    by (simp add: getBreakpointForNode_def find_None_nodeId)
  have t1: "toggleBreakpoint n s = addBreakpoint n [] s"
    using assms(1) by (simp add: toggleBreakpoint_def)
  have b1: "m_breakpoints (addBreakpoint n [] s) = m_breakpoints s @ [?new]"
    using absent by (simp add: addBreakpoint_breakpoints)
  have "find (\<lambda>b. nodeId b = n) (m_breakpoints s) = None"
    using assms(1) by (simp add: getBreakpointForNode_def)
  then have "getBreakpointForNode (addBreakpoint n [] s) n = Some ?new"
    by (simp add: getBreakpointForNode_def b1 find_append_None)
  then have "toggleBreakpoint n (addBreakpoint n [] s) =
               removeBreakpoint (bp_name (m_nextBreakpointId s)) (addBreakpoint n [] s)"
    by (simp add: toggleBreakpoint_def)
  then show ?thesis
    using assms(2) by (simp add: t1 removeBreakpoint_def b1 erase_first_append_fresh)
qed

lemma toggle_twice_present:
  assumes "getBreakpointForNode s n = Some b"
    and "distinct (map nodeId (m_breakpoints s))"
    and "distinct (map bp_id (m_breakpoints s))"
  shows "m_breakpoints (toggleBreakpoint n (toggleBreakpoint n s)) =
           remove1 b (m_breakpoints s) @
           [\<lparr>bp_id = bp_name (m_nextBreakpointId s), nodeId = n, condition = [],
             enabled = True, hitOnce = False, hitCount = 0\<rparr>]"
proof -
  from assms(1) have mem: "b \<in> set (m_breakpoints s)" and nb: "nodeId b = n"
    by (auto simp: getBreakpointForNode_def dest: find_Some_mem)
  have t1: "toggleBreakpoint n s = removeBreakpoint (bp_id b) s"
    using assms(1) by (simp add: toggleBreakpoint_def)
  have b1: "m_breakpoints (removeBreakpoint (bp_id b) s) = remove1 b (m_breakpoints s)"
    using assms(3) mem by (simp add: removeBreakpoint_def erase_first_distinct_ids)
  have gone: "n \<notin> nodeId ` set (m_breakpoints (removeBreakpoint (bp_id b) s))"
    using remove1_nodes [OF assms(2) mem] nb by (simp add: b1)
  then have "getBreakpointForNode (removeBreakpoint (bp_id b) s) n = None"
    by (simp add: getBreakpointForNode_def find_None_nodeId)
  then have "toggleBreakpoint n (removeBreakpoint (bp_id b) s) =
               addBreakpoint n [] (removeBreakpoint (bp_id b) s)"
    by (simp add: toggleBreakpoint_def)
  moreover have "m_nextBreakpointId (removeBreakpoint (bp_id b) s) = m_nextBreakpointId s"
    by (simp add: removeBreakpoint_def)
  ultimately show ?thesis
    using gone by (simp add: t1 addBreakpoint_breakpoints b1)
qed

text \<open>
  C8, as stated, fails: toggling a node that has a breakpoint removes it and then creates a
  new one, with the next id and an empty condition, so the registry does not hold the
  breakpoint it held before.
\<close>

theorem toggle_twice_replaces_breakpoint:
  "m_breakpoints (run [AddBreakpoint ''node_1'' ''points > 10''] init) =
     [\<lparr>bp_id = ''bp_1'', nodeId = ''node_1'', condition = ''points > 10'', enabled = True,
       hitOnce = False, hitCount = 0\<rparr>] \<and>
   m_breakpoints (toggleBreakpoint ''node_1'' (toggleBreakpoint ''node_1''
       (run [AddBreakpoint ''node_1'' ''points > 10''] init))) =
     [\<lparr>bp_id = ''bp_2'', nodeId = ''node_1'', condition = [], enabled = True,
       hitOnce = False, hitCount = 0\<rparr>] \<and>
   set (m_breakpoints (toggleBreakpoint ''node_1'' (toggleBreakpoint ''node_1''
       (run [AddBreakpoint ''node_1'' ''points > 10''] init)))) \<noteq>
   set (m_breakpoints (run [AddBreakpoint ''node_1'' ''points > 10''] init))"
  by (simp add: ctl_defs)

text \<open>
  C8, amended. In a registry with distinct node ids and distinct breakpoint ids that does not
  hold the id the counter gives next (\<open>run_registry_well_formed\<close>: every registry reached
  before the id counter can wrap), two calls of \<open>toggleBreakpoint\<close> for a node restore the
  set of nodes that carry a breakpoint. When the node had no breakpoint, the registry itself
  is restored. When it had the breakpoint \<open>b\<close>, the registry is the old one without \<open>b\<close>,
  followed by a new enabled breakpoint for the node with the next id, an empty condition and
  hit count 0.
\<close>

theorem toggle_twice_amended:
  assumes "distinct (map nodeId (m_breakpoints s))"
    and "distinct (map bp_id (m_breakpoints s))"
    and "bp_name (m_nextBreakpointId s) \<notin> bp_id ` set (m_breakpoints s)"
  shows "nodeId ` set (m_breakpoints (toggleBreakpoint n (toggleBreakpoint n s))) =
           nodeId ` set (m_breakpoints s) \<and>
         (getBreakpointForNode s n = None \<longrightarrow>
            m_breakpoints (toggleBreakpoint n (toggleBreakpoint n s)) = m_breakpoints s) \<and>
         (getBreakpointForNode s n = Some b \<longrightarrow>
            m_breakpoints (toggleBreakpoint n (toggleBreakpoint n s)) =
              remove1 b (m_breakpoints s) @
              [\<lparr>bp_id = bp_name (m_nextBreakpointId s), nodeId = n, condition = [],
                enabled = True, hitOnce = False, hitCount = 0\<rparr>])"
proof -
  have absent: "m_breakpoints (toggleBreakpoint n (toggleBreakpoint n s)) = m_breakpoints s"
    if "getBreakpointForNode s n = None"
    using that assms(3) by (rule toggle_twice_absent)
  have present: "m_breakpoints (toggleBreakpoint n (toggleBreakpoint n s)) =
              remove1 b' (m_breakpoints s) @
              [\<lparr>bp_id = bp_name (m_nextBreakpointId s), nodeId = n, condition = [],
                enabled = True, hitOnce = False, hitCount = 0\<rparr>]"
    if "getBreakpointForNode s n = Some b'" for b'
    using that assms(1,2) by (rule toggle_twice_present)
  have "nodeId ` set (m_breakpoints (toggleBreakpoint n (toggleBreakpoint n s))) =
           nodeId ` set (m_breakpoints s)"
  proof (cases "getBreakpointForNode s n")
    case None
    then show ?thesis by (simp add: absent)
  next
    case (Some b')
    then have mem: "b' \<in> set (m_breakpoints s)" and nb: "nodeId b' = n"
      by (auto simp: getBreakpointForNode_def dest: find_Some_mem)
    have "nodeId ` set (remove1 b' (m_breakpoints s)) = nodeId ` set (m_breakpoints s) - {n}"
      using remove1_nodes [OF assms(1) mem] nb by simp
    moreover have "n \<in> nodeId ` set (m_breakpoints s)"
      using mem nb by auto
    ultimately show ?thesis
      by (auto simp: present [OF Some])
  qed
  with absent present show ?thesis by blast
qed

theorem toggle_twice_amended_witness:
  "distinct (map nodeId (m_breakpoints (run [AddBreakpoint ''n0'' ''c''] init))) \<and>
   distinct (map bp_id (m_breakpoints (run [AddBreakpoint ''n0'' ''c''] init))) \<and>
   bp_name (m_nextBreakpointId (run [AddBreakpoint ''n0'' ''c''] init)) \<notin>
     bp_id ` set (m_breakpoints (run [AddBreakpoint ''n0'' ''c''] init)) \<and>
   getBreakpointForNode (run [AddBreakpoint ''n0'' ''c''] init) ''n1'' = None \<and>
   m_breakpoints (toggleBreakpoint ''n1'' (toggleBreakpoint ''n1''
       (run [AddBreakpoint ''n0'' ''c''] init))) =
     m_breakpoints (run [AddBreakpoint ''n0'' ''c''] init) \<and>
   getBreakpointForNode (run [AddBreakpoint ''n0'' ''c''] init) ''n0'' =
     Some \<lparr>bp_id = ''bp_1'', nodeId = ''n0'', condition = ''c'', enabled = True,
           hitOnce = False, hitCount = 0\<rparr> \<and>
   m_breakpoints (toggleBreakpoint ''n0'' (toggleBreakpoint ''n0''
       (run [AddBreakpoint ''n0'' ''c''] init))) =
     [\<lparr>bp_id = ''bp_2'', nodeId = ''n0'', condition = [], enabled = True,
       hitOnce = False, hitCount = 0\<rparr>]"
proof -
  let ?s = "run [AddBreakpoint ''n0'' ''c''] init"
  let ?b = "\<lparr>bp_id = ''bp_1'', nodeId = ''n0'', condition = ''c'', enabled = True,
           hitOnce = False, hitCount = 0 :: 32 word\<rparr>"
  have m: "m_breakpoints ?s = [?b]" by (simp add: ctl_defs)
  have k: "bp_name (m_nextBreakpointId ?s) = ''bp_2''" by (simp add: ctl_defs)
  have h1: "distinct (map nodeId (m_breakpoints ?s))" by (simp add: ctl_defs)
  have h2: "distinct (map bp_id (m_breakpoints ?s))" by (simp add: ctl_defs)
  have h3: "bp_name (m_nextBreakpointId ?s) \<notin> bp_id ` set (m_breakpoints ?s)"
    by (simp add: ctl_defs)
  have a: "getBreakpointForNode ?s ''n1'' = None" by (simp add: ctl_defs)
  have p: "getBreakpointForNode ?s ''n0'' = Some ?b" by (simp add: ctl_defs)
  show ?thesis
    using toggle_twice_amended [OF h1 h2 h3, of "''n1''" ?b]
      toggle_twice_amended [OF h1 h2 h3, of "''n0''" ?b] h1 h2 h3 a p m k
    by simp
qed

end
